theory Spec2Isabelle
  imports Main "HOL-Library.Product_Lexorder"
begin

section \<open>Response cache (api/routes/user.ts)\<close>

text \<open>
  The module-level \<^verbatim>\<open>Map<string, { data; timestamp; ttl }>\<close>. Times are the integer
  milliseconds of \<^verbatim>\<open>Date.now()\<close> and the callers pass whole minutes; the map is passed in and
  returned, and the clock reading is an argument. \<^verbatim>\<open>getCachedData\<close> returns \<^verbatim>\<open>cached.data\<close> or \<^verbatim>\<open>null\<close> (here \<open>None\<close>) and
  deletes the key on every path that does not return the data.
\<close>

record 'v cache_entry =
  data :: 'v
  timestamp :: int
  ttl :: int

type_synonym 'v cache = "string \<rightharpoonup> 'v cache_entry"

definition getCachedData :: "'v cache \<Rightarrow> int \<Rightarrow> string \<Rightarrow> 'v option \<times> 'v cache" where
  "getCachedData cache now key =
     (case cache key of
        Some cached \<Rightarrow>
          if now - timestamp cached < ttl cached then (Some (data cached), cache)
          else (None, cache(key := None))
      | None \<Rightarrow> (None, cache(key := None)))"

text \<open>\<^verbatim>\<open>ttlMinutes: number = 5\<close>: an omitted argument is \<open>None\<close> and takes the default.\<close>

definition setCachedData :: "'v cache \<Rightarrow> int \<Rightarrow> string \<Rightarrow> 'v \<Rightarrow> int option \<Rightarrow> 'v cache" where
  "setCachedData cache now key d ttlMinutes =
     cache(key \<mapsto> \<lparr>data = d, timestamp = now,
                    ttl = (case ttlMinutes of None \<Rightarrow> 5 | Some m \<Rightarrow> m) * 60 * 1000\<rparr>)"

section \<open>Storage (supabase/migrations/001_initial_schema.sql)\<close>

text \<open>
  The tables the chat code reads and writes, as lists of rows in table order. Identifiers are
  the UUID primary keys, taken as numbers. In \<^verbatim>\<open>chat_messages\<close> only \<^verbatim>\<open>id\<close> and the text are
  \<^verbatim>\<open>NOT NULL\<close>: \<^verbatim>\<open>coin_id\<close>, \<^verbatim>\<open>user_id\<close>, \<^verbatim>\<open>created_at\<close> and \<^verbatim>\<open>is_deleted\<close> may hold \<^verbatim>\<open>NULL\<close>
  (\<open>None\<close>). The API calls the text column \<^verbatim>\<open>content\<close> and the user's display column \<^verbatim>\<open>name\<close>;
  the rows carry the fields under the names the queries use.
\<close>

type_synonym uuid = nat

record user_row =
  u_id :: uuid
  auth0_sub :: string
  name :: string
  email :: string

record chat_message =
  msg_id :: uuid
  coin_id :: "string option"
  user_id :: "uuid option"
  content :: string
  created_at :: "int option"
  is_deleted :: "bool option"

record database =
  users :: "user_row list"
  coins :: "string list"
  chat_messages :: "chat_message list"

text \<open>
  \<^verbatim>\<open>ORDER BY created_at DESC\<close>: PostgreSQL sorts \<^verbatim>\<open>NULL\<close> as larger than every value, so a
  descending order lists \<^verbatim>\<open>NULL\<close> timestamps first. \<open>recency\<close> is that sort key; rows with equal
  keys come in an order the database is free to choose, here the reverse of table order.
\<close>

definition recency :: "int option \<Rightarrow> nat \<times> int" where
  "recency t = (case t of None \<Rightarrow> (1, 0) | Some x \<Rightarrow> (0, x))"

definition order_created_at_desc :: "chat_message list \<Rightarrow> chat_message list" where
  "order_created_at_desc rows = rev (sort_key (\<lambda>m. recency (created_at m)) rows)"

subsection \<open>\<^verbatim>\<open>cleanup_old_messages()\<close>\<close>

text \<open>
  \<^verbatim>\<open>FROM chat_messages WHERE is_deleted = false\<close>: a \<^verbatim>\<open>NULL\<close> flag does not satisfy the
  comparison.
\<close>

definition not_deleted :: "chat_message list \<Rightarrow> chat_message list" where
  "not_deleted tbl = filter (\<lambda>m. is_deleted m = Some False) tbl"

text \<open>
  The subquery \<^verbatim>\<open>ranked\<close>: \<^verbatim>\<open>ROW_NUMBER() OVER (PARTITION BY coin_id ORDER BY created_at DESC)\<close>
  numbers the rows of each partition from 1 (rows with a \<^verbatim>\<open>NULL\<close> \<^verbatim>\<open>coin_id\<close> form one
  partition). The result pairs each row number with its row.
\<close>

definition ranked :: "chat_message list \<Rightarrow> (nat \<times> chat_message) list" where
  "ranked tbl =
     concat (map (\<lambda>c. enumerate 1 (order_created_at_desc
                                      (filter (\<lambda>m. coin_id m = c) (not_deleted tbl))))
                 (remdups (map coin_id (not_deleted tbl))))"

text \<open>\<^verbatim>\<open>SELECT id FROM ranked WHERE rn <= 50\<close>\<close>

definition keep_ids :: "chat_message list \<Rightarrow> uuid list" where
  "keep_ids tbl = map (\<lambda>(rn, m). msg_id m) (filter (\<lambda>(rn, m). rn \<le> 50) (ranked tbl))"

text \<open>\<^verbatim>\<open>DELETE FROM chat_messages WHERE id NOT IN (...)\<close>: the rows that stay.\<close>

definition cleanup_old_messages :: "chat_message list \<Rightarrow> chat_message list" where
  "cleanup_old_messages tbl = filter (\<lambda>m. \<not> (msg_id m \<notin> set (keep_ids tbl))) tbl"

text \<open>The non-deleted messages of one room, and those among them that a sweep keeps.\<close>

definition room_messages :: "chat_message list \<Rightarrow> string option \<Rightarrow> chat_message list" where
  "room_messages tbl c = filter (\<lambda>m. coin_id m = c) (not_deleted tbl)"

definition newest_50 :: "chat_message list \<Rightarrow> string option \<Rightarrow> chat_message list" where
  "newest_50 tbl c = take 50 (order_created_at_desc (room_messages tbl c))"

subsection \<open>Queries of the chat code\<close>

text \<open>
  A storage call answers \<^verbatim>\<open>{ data, error }\<close>. What the storage service and the clock
  contribute to a call is an argument: the time of \<^verbatim>\<open>NOW()\<close>, the value of
  \<^verbatim>\<open>gen_random_uuid()\<close>, and whether a query on a table fails for a reason outside the tables
  (connection, service).
\<close>

record 'a response =
  resp_data :: "'a option"
  resp_error :: "string option"

record storage_env =
  db_now :: int
  gen_random_uuid :: uuid
  users_fail :: bool
  coins_fail :: bool
  messages_fail :: bool

text \<open>
  The selection \<^verbatim>\<open>id, coin_id, content, created_at, users!inner(id, name, email)\<close>: a message
  row with the list of its authors; the inner join leaves out a message without one.
\<close>

record joined_message =
  j_id :: uuid
  j_coin_id :: "string option"
  j_content :: string
  j_created_at :: "int option"
  j_users :: "user_row list"

definition join_users :: "database \<Rightarrow> chat_message \<Rightarrow> joined_message" where
  "join_users db m =
     \<lparr>j_id = msg_id m, j_coin_id = coin_id m, j_content = content m, j_created_at = created_at m,
      j_users = filter (\<lambda>u. user_id m = Some (u_id u)) (users db)\<rparr>"

text \<open>
  \<^verbatim>\<open>.eq('coin_id', coinId).eq('is_deleted', false).order('created_at', { ascending: false }).limit(50)\<close>
\<close>

definition select_recent_messages :: "database \<Rightarrow> string \<Rightarrow> chat_message list" where
  "select_recent_messages db coinId =
     take 50 (order_created_at_desc
                (filter (\<lambda>m. coin_id m = Some coinId \<and> is_deleted m = Some False
                              \<and> j_users (join_users db m) \<noteq> [])
                        (chat_messages db)))"

text \<open>The rows among which the history query chooses: the last filter, before order and limit.\<close>

definition history_candidates :: "database \<Rightarrow> string \<Rightarrow> chat_message list" where
  "history_candidates db coinId =
     filter (\<lambda>m. coin_id m = Some coinId \<and> is_deleted m = Some False \<and> j_users (join_users db m) \<noteq> [])
            (chat_messages db)"

definition fetch_recent_messages ::
    "storage_env \<Rightarrow> database \<Rightarrow> string \<Rightarrow> joined_message list response" where
  "fetch_recent_messages env db coinId =
     (if messages_fail env then \<lparr>resp_data = None, resp_error = Some ''query failed''\<rparr>
      else \<lparr>resp_data = Some (map (join_users db) (select_recent_messages db coinId)),
            resp_error = None\<rparr>)"

text \<open>
  \<^verbatim>\<open>getUserIdFromSub\<close> (api/middleware/auth.ts): \<^verbatim>\<open>.eq('auth0_sub', auth0Sub).single()\<close> is an
  error unless exactly one row matches; every error gives \<^verbatim>\<open>null\<close>.
\<close>

definition getUserIdFromSub :: "storage_env \<Rightarrow> database \<Rightarrow> string \<Rightarrow> uuid option" where
  "getUserIdFromSub env db auth0Sub =
     (if users_fail env then None
      else case filter (\<lambda>u. auth0_sub u = auth0Sub) (users db) of
             [u] \<Rightarrow> Some (u_id u)
           | _ \<Rightarrow> None)"

text \<open>
  \<^verbatim>\<open>.insert({ coin_id, user_id, content }).select(...).single()\<close>. The row takes the column
  defaults for \<^verbatim>\<open>id\<close>, \<^verbatim>\<open>created_at\<close> and \<^verbatim>\<open>is_deleted\<close>. The insert is refused when the
  primary key is taken or a foreign key (\<^verbatim>\<open>coins(id)\<close>, \<^verbatim>\<open>users(id)\<close>) has no target, and then
  the table is unchanged.
\<close>

definition insert_message ::
    "storage_env \<Rightarrow> database \<Rightarrow> string \<Rightarrow> uuid \<Rightarrow> string \<Rightarrow> database \<times> joined_message response" where
  "insert_message env db coinId userId text =
     (if messages_fail env
         \<or> gen_random_uuid env \<in> set (map msg_id (chat_messages db))
         \<or> coinId \<notin> set (coins db)
         \<or> userId \<notin> set (map u_id (users db))
      then (db, \<lparr>resp_data = None, resp_error = Some ''insert failed''\<rparr>)
      else
        (db\<lparr>chat_messages := chat_messages db @
             [\<lparr>msg_id = gen_random_uuid env, coin_id = Some coinId, user_id = Some userId,
               content = text, created_at = Some (db_now env), is_deleted = Some False\<rparr>]\<rparr>,
         \<lparr>resp_data = Some (join_users db
             \<lparr>msg_id = gen_random_uuid env, coin_id = Some coinId, user_id = Some userId,
              content = text, created_at = Some (db_now env), is_deleted = Some False\<rparr>),
          resp_error = None\<rparr>))"

section \<open>Chat room protocol (api/socket/index.ts)\<close>

subsection \<open>Events and the socket server\<close>

text \<open>
  The message object sent to clients, and the events of the chat namespace. A delivery is one
  event arriving at one socket.
\<close>

record message_user =
  mu_id :: uuid
  mu_name :: string
  mu_email :: string

record formatted_message =
  f_id :: uuid
  f_coinId :: "string option"
  f_content :: string
  f_createdAt :: "int option"
  f_user :: message_user

datatype event =
    ErrorEvent string
  | RoomJoined string "formatted_message list"
  | UserJoined string
  | UserLeft string
  | MessageEvent formatted_message

type_synonym sid = string

type_synonym delivery = "sid \<times> event"

record socket_user =
  sub :: string
  su_email :: "string option"
  su_name :: "string option"

text \<open>
  The state the socket library keeps for the namespace \<^verbatim>\<open>/chat\<close>: the connected sockets, the
  rooms of each (\<^verbatim>\<open>socket.rooms\<close>, a set in insertion order) and the identity that the
  authentication middleware attached (\<^verbatim>\<open>socket.user\<close>). On connection a socket is in the room
  named by its own id.
\<close>

record server =
  sockets :: "sid list"
  rooms :: "sid \<Rightarrow> string list"
  user :: "sid \<Rightarrow> socket_user"

definition socket_join :: "server \<Rightarrow> sid \<Rightarrow> string \<Rightarrow> server" where
  "socket_join st s room =
     st\<lparr>rooms := (rooms st)(s := if room \<in> set (rooms st s) then rooms st s
                                  else rooms st s @ [room])\<rparr>"

definition socket_leave :: "server \<Rightarrow> sid \<Rightarrow> string \<Rightarrow> server" where
  "socket_leave st s room = st\<lparr>rooms := (rooms st)(s := removeAll room (rooms st s))\<rparr>"

text \<open>
  \<^verbatim>\<open>socket.emit\<close> reaches the socket itself; \<^verbatim>\<open>socket.to(room).emit\<close> reaches the sockets in
  the room except the sender; \<^verbatim>\<open>chatNamespace.to(room).emit\<close> reaches every socket in the room.
\<close>

definition socket_emit :: "sid \<Rightarrow> event \<Rightarrow> delivery list" where
  "socket_emit s ev = [(s, ev)]"

definition socket_to_emit :: "server \<Rightarrow> sid \<Rightarrow> string \<Rightarrow> event \<Rightarrow> delivery list" where
  "socket_to_emit st s room ev =
     map (\<lambda>t. (t, ev)) (filter (\<lambda>t. room \<in> set (rooms st t) \<and> t \<noteq> s) (sockets st))"

definition namespace_to_emit :: "server \<Rightarrow> string \<Rightarrow> event \<Rightarrow> delivery list" where
  "namespace_to_emit st room ev =
     map (\<lambda>t. (t, ev)) (filter (\<lambda>t. room \<in> set (rooms st t)) (sockets st))"

text \<open>
  Closing a connection: the library takes the socket out of every room and out of the
  namespace. The \<^verbatim>\<open>disconnect\<close> handler of the chat code only writes a log line.
\<close>

definition disconnect :: "server \<Rightarrow> sid \<Rightarrow> server \<times> delivery list" where
  "disconnect st s =
     (st\<lparr>sockets := removeAll s (sockets st), rooms := (rooms st)(s := [])\<rparr>, [])"

subsection \<open>Helpers\<close>

text \<open>\<^verbatim>\<open>user.name || user.email?.split('@')[0] || 'Anonymous'\<close>: an empty string is falsy.\<close>

definition username :: "socket_user \<Rightarrow> string" where
  "username u =
     (let from_email =
            (case su_email u of
               None \<Rightarrow> ''Anonymous''
             | Some e \<Rightarrow> if takeWhile (\<lambda>c. c \<noteq> CHR ''@'') e \<noteq> []
                         then takeWhile (\<lambda>c. c \<noteq> CHR ''@'') e else ''Anonymous'')
      in case su_name u of
           None \<Rightarrow> from_email
         | Some n \<Rightarrow> if n \<noteq> [] then n else from_email)"

text \<open>
  \<^verbatim>\<open>String.prototype.trim\<close> removes white space and line terminators at both ends; among the
  character codes below 256 these are tab, line feed, vertical tab, form feed, carriage return,
  space and no-break space.
\<close>

definition is_space :: "char \<Rightarrow> bool" where
  "is_space c \<longleftrightarrow> c \<in> {CHR 0x09, CHR 0x0A, CHR 0x0B, CHR 0x0C, CHR 0x0D, CHR '' '', CHR 0xA0}"

definition trim :: "string \<Rightarrow> string" where
  "trim s = rev (dropWhile is_space (rev (dropWhile is_space s)))"

text \<open>
  The object literal built from a selected row reads \<^verbatim>\<open>msg.users[0].id\<close>: with an empty
  \<^verbatim>\<open>users\<close> array this throws a \<^verbatim>\<open>TypeError\<close>, here \<open>None\<close>.
\<close>

definition format_message :: "joined_message \<Rightarrow> formatted_message option" where
  "format_message msg =
     (case j_users msg of
        [] \<Rightarrow> None
      | u # _ \<Rightarrow>
          Some \<lparr>f_id = j_id msg, f_coinId = j_coin_id msg, f_content = j_content msg,
                f_createdAt = j_created_at msg,
                f_user = \<lparr>mu_id = u_id u, mu_name = name u, mu_email = email u\<rparr>\<rparr>)"

subsection \<open>\<^verbatim>\<open>join_room\<close>\<close>

text \<open>
  The handler up to its \<^verbatim>\<open>await\<close>: every room other than the socket's own is left (the loop
  runs over a copy of \<^verbatim>\<open>socket.rooms\<close>), then the new room is joined. No event is emitted here.
\<close>

definition leave_previous_rooms :: "server \<Rightarrow> sid \<Rightarrow> server" where
  "leave_previous_rooms st s =
     fold (\<lambda>room st'. if room \<noteq> s then socket_leave st' s room else st') (rooms st s) st"

definition join_room_switch :: "server \<Rightarrow> sid \<Rightarrow> string \<Rightarrow> server" where
  "join_room_switch st s coinId = socket_join (leave_previous_rooms st s) s coinId"

text \<open>
  The handler after the \<^verbatim>\<open>await\<close>, given the query's answer and the server state at that
  moment: an error answer is reported and ends the handler; otherwise the rows are reversed
  and formatted (\<^verbatim>\<open>messages?.reverse().map(...) || []\<close>), sent to the socket, and the room is
  told of the new user. An exception is caught and reported as \<^verbatim>\<open>Failed to join room\<close>.
\<close>

definition join_room_reply ::
    "server \<Rightarrow> sid \<Rightarrow> string \<Rightarrow> joined_message list response \<Rightarrow> delivery list" where
  "join_room_reply st s coinId r =
     (if resp_error r \<noteq> None then socket_emit s (ErrorEvent ''Failed to load messages'')
      else
        case (case resp_data r of
                None \<Rightarrow> Some []
              | Some messages \<Rightarrow> those (map format_message (rev messages))) of
          None \<Rightarrow> socket_emit s (ErrorEvent ''Failed to join room'')
        | Some formattedMessages \<Rightarrow>
            socket_emit s (RoomJoined coinId formattedMessages)
            @ socket_to_emit st s coinId (UserJoined (username (user st s))))"

text \<open>The whole handler, run without another handler in between. A missing \<^verbatim>\<open>coinId\<close> is the
  empty string: both are falsy.\<close>

definition join_room ::
    "storage_env \<Rightarrow> database \<Rightarrow> server \<Rightarrow> sid \<Rightarrow> string \<Rightarrow> server \<times> delivery list" where
  "join_room env db st s coinId =
     (if coinId = [] then (st, socket_emit s (ErrorEvent ''Coin ID is required''))
      else (join_room_switch st s coinId,
            join_room_reply (join_room_switch st s coinId) s coinId
              (fetch_recent_messages env db coinId)))"

subsection \<open>\<^verbatim>\<open>send_message\<close>\<close>

text \<open>
  The server state is the one at the moment of the broadcast; the handler does not change it.
  The result is the database after the handler and the deliveries it made.
\<close>

definition send_message ::
    "storage_env \<Rightarrow> database \<Rightarrow> server \<Rightarrow> sid \<Rightarrow> string \<Rightarrow> string \<Rightarrow> database \<times> delivery list" where
  "send_message env db st s coinId message =
     (if coinId = [] \<or> trim message = []
      then (db, socket_emit s (ErrorEvent ''Coin ID and message are required''))
      else if length message > 500
      then (db, socket_emit s (ErrorEvent ''Message too long (max 500 characters)''))
      else
        case getUserIdFromSub env db (sub (user st s)) of
          None \<Rightarrow> (db, socket_emit s (ErrorEvent ''User not found''))
        | Some userId \<Rightarrow>
            (case insert_message env db coinId userId (trim message) of
               (db', r) \<Rightarrow>
                 if resp_error r \<noteq> None
                 then (db', socket_emit s (ErrorEvent ''Failed to send message''))
                 else
                   (case (case resp_data r of None \<Rightarrow> None
                          | Some newMessage \<Rightarrow> format_message newMessage) of
                      None \<Rightarrow> (db', socket_emit s (ErrorEvent ''Failed to send message''))
                    | Some formattedMessage \<Rightarrow>
                        (db', namespace_to_emit st coinId (MessageEvent formattedMessage)))))"

subsection \<open>\<^verbatim>\<open>leave_room\<close>\<close>

definition leave_room :: "server \<Rightarrow> sid \<Rightarrow> string \<Rightarrow> server \<times> delivery list" where
  "leave_room st s coinId =
     (if coinId \<noteq> []
      then (socket_leave st s coinId,
            socket_to_emit (socket_leave st s coinId) s coinId (UserLeft (username (user st s))))
      else (st, []))"

subsection \<open>Dispatch of room events\<close>

text \<open>
  The events that change room membership, each with the socket that sent it and with what the
  storage service contributes while it is handled. A socket that has disconnected sends nothing
  more: its handlers are gone with it.
\<close>

datatype room_event = JoinRoom string | LeaveRoom string | Disconnect

type_synonym request = "sid \<times> room_event \<times> storage_env \<times> database"

definition dispatch :: "server \<Rightarrow> request \<Rightarrow> server \<times> delivery list" where
  "dispatch st rq =
     (case rq of (s, ev, env, db) \<Rightarrow>
        if s \<notin> set (sockets st) then (st, [])
        else (case ev of
                JoinRoom coinId \<Rightarrow> join_room env db st s coinId
              | LeaveRoom coinId \<Rightarrow> leave_room st s coinId
              | Disconnect \<Rightarrow> disconnect st s))"

definition run_events :: "server \<Rightarrow> request list \<Rightarrow> server" where
  "run_events st rqs = fold (\<lambda>rq st'. fst (dispatch st' rq)) rqs st"

text \<open>The server with the sockets \<open>ss\<close> connected and none of them in a chat room yet.\<close>

definition connected :: "sid list \<Rightarrow> (sid \<Rightarrow> socket_user) \<Rightarrow> server" where
  "connected ss u = \<lparr>sockets = ss, rooms = (\<lambda>s. if s \<in> set ss then [s] else []), user = u\<rparr>"

subsection \<open>The session state machine of the specification\<close>

text \<open>
  Written from the specification, to be compared with the code: a session is disconnected,
  connected in no room, or in one room. A join with a non-empty room identifier moves it to
  that room, a leave of the room it is in moves it to no room, a leave of any other room
  changes nothing, and a disconnect ends it.
\<close>

datatype session_state = Disconnected | NoRoom | InRoom string

fun session_step :: "session_state \<Rightarrow> room_event \<Rightarrow> session_state" where
  "session_step Disconnected ev = Disconnected"
| "session_step cur (JoinRoom r) = (if r = [] then cur else InRoom r)"
| "session_step cur (LeaveRoom r) = (if r \<noteq> [] \<and> cur = InRoom r then NoRoom else cur)"
| "session_step cur Disconnect = Disconnected"

definition session_run :: "(sid \<Rightarrow> session_state) \<Rightarrow> request list \<Rightarrow> sid \<Rightarrow> session_state" where
  "session_run \<sigma> rqs =
     fold (\<lambda>rq \<sigma>'. case rq of (s, ev, env, db) \<Rightarrow> \<sigma>'(s := session_step (\<sigma>' s) ev)) rqs \<sigma>"

definition session_states :: "sid list \<Rightarrow> request list \<Rightarrow> sid \<Rightarrow> session_state" where
  "session_states ss rqs = session_run (\<lambda>s. if s \<in> set ss then NoRoom else Disconnected) rqs"

section \<open>REST entry point \<^verbatim>\<open>POST /messages\<close> (chat router)\<close>

text \<open>
  The request body after JSON parsing: a field is absent (\<open>None\<close>) or a string. The schema
  \<^verbatim>\<open>Joi.object({ coinId: Joi.string().required(), content: Joi.string().min(1).max(1000).required() })\<close>
  checks the keys in order and stops at the first failure; a Joi string rejects the empty
  string and, with no \<^verbatim>\<open>trim()\<close> rule, leaves white space as it is.
\<close>

record message_body =
  b_coinId :: "string option"
  b_content :: "string option"

datatype joi_error =
    Required string
  | NotAllowedEmpty string
  | TooShort string nat
  | TooLong string nat

definition messageSchema_validate :: "message_body \<Rightarrow> joi_error + string \<times> string" where
  "messageSchema_validate body =
     (case b_coinId body of
        None \<Rightarrow> Inl (Required ''coinId'')
      | Some c \<Rightarrow>
          if c = [] then Inl (NotAllowedEmpty ''coinId'')
          else (case b_content body of
                  None \<Rightarrow> Inl (Required ''content'')
                | Some t \<Rightarrow>
                    if t = [] then Inl (NotAllowedEmpty ''content'')
                    else if length t < 1 then Inl (TooShort ''content'' 1)
                    else if length t > 1000 then Inl (TooLong ''content'' 1000)
                    else Inr (c, t)))"

datatype http_body = ErrorBody string | ValidationBody joi_error | MessageBody formatted_message

text \<open>
  The handler: the caller's subject claim (\<^verbatim>\<open>req.user?.sub\<close>) and the body come in; the
  database after the request, the status and the response body come out. The selection after
  the insert has no \<^verbatim>\<open>coin_id\<close>; the response takes \<^verbatim>\<open>coinId\<close> from the request.
\<close>

definition post_message ::
    "storage_env \<Rightarrow> database \<Rightarrow> string option \<Rightarrow> message_body \<Rightarrow> database \<times> nat \<times> http_body" where
  "post_message env db req_user_sub body =
     (if req_user_sub = None \<or> req_user_sub = Some []
      then (db, 401, ErrorBody ''User not authenticated'')
      else (case messageSchema_validate body of
              Inl validationError \<Rightarrow> (db, 400, ValidationBody validationError)
            | Inr (coinId, content_value) \<Rightarrow>
                (case getUserIdFromSub env db (the req_user_sub) of
                   None \<Rightarrow> (db, 404, ErrorBody ''User not found'')
                 | Some userId \<Rightarrow>
                     if coins_fail env then (db, 500, ErrorBody ''Failed to verify coin'')
                     else if length (filter (\<lambda>c. c = coinId) (coins db)) \<noteq> 1
                     then (db, 404, ErrorBody ''Coin not found'')
                     else (case insert_message env db coinId userId (trim content_value) of
                             (db', r) \<Rightarrow>
                               if resp_error r \<noteq> None
                               then (db', 500, ErrorBody ''Failed to send message'')
                               else (case (case resp_data r of None \<Rightarrow> None
                                           | Some newMessage \<Rightarrow> format_message newMessage) of
                                       None \<Rightarrow> (db', 500, ErrorBody ''Internal server error'')
                                     | Some formattedMessage \<Rightarrow>
                                         (db', 201, MessageBody
                                            (formattedMessage\<lparr>f_coinId := Some coinId\<rparr>)))))))"

section \<open>Sample data\<close>

text \<open>
  The data of the concrete instances below: message \<open>i\<close> of room \<open>c\<close>, created at time \<open>i\<close>,
  with soft-delete flag \<open>del\<close>; a database with two users and two coins and no message; a
  storage service that works; and a server with sockets \<open>A\<close> and \<open>B\<close> in room \<open>bitcoin\<close>,
  socket \<open>C\<close> in no chat room and socket \<open>D\<close> in room \<open>ethereum\<close>.
\<close>

definition chat_row :: "string \<Rightarrow> nat \<Rightarrow> bool \<Rightarrow> chat_message" where
  "chat_row c i del = \<lparr>msg_id = i, coin_id = Some c, user_id = Some 1, content = ''gm'',
                       created_at = Some (int i), is_deleted = Some del\<rparr>"

definition sample_db :: database where
  "sample_db =
     \<lparr>users = [\<lparr>u_id = 1, auth0_sub = ''auth0|alice'', name = ''alice'', email = ''alice@example.com''\<rparr>,
               \<lparr>u_id = 2, auth0_sub = ''auth0|bob'', name = ''bob'', email = ''bob@example.com''\<rparr>],
      coins = [''bitcoin'', ''ethereum''],
      chat_messages = []\<rparr>"

definition sample_env :: storage_env where
  "sample_env = \<lparr>db_now = 1000, gen_random_uuid = 7,
                  users_fail = False, coins_fail = False, messages_fail = False\<rparr>"

definition sample_users :: "sid \<Rightarrow> socket_user" where
  "sample_users s =
     (if s = ''A'' then \<lparr>sub = ''auth0|alice'', su_email = Some ''alice@example.com'', su_name = None\<rparr>
      else \<lparr>sub = ''auth0|bob'', su_email = Some ''bob@example.com'', su_name = Some ''bob''\<rparr>)"

definition sample_server :: server where
  "sample_server =
     \<lparr>sockets = [''A'', ''B'', ''C'', ''D''],
      rooms = (\<lambda>s. if s = ''A'' then [''A'', ''bitcoin'']
                   else if s = ''B'' then [''B'', ''bitcoin'']
                   else if s = ''C'' then [''C'']
                   else if s = ''D'' then [''D'', ''ethereum''] else []),
      user = sample_users\<rparr>"

section \<open>Properties of the response cache\<close>

text \<open>
  Claim C7. \<open>setCachedData\<close> at time \<open>t0\<close> stores the value with timestamp \<open>t0\<close> and a
  time-to-live of \<open>ttlMinutes * 60 * 1000\<close> milliseconds. A \<open>getCachedData\<close> of the same key at
  a time \<open>t1\<close> with \<open>t1 - t0\<close> strictly below that time-to-live returns the value and leaves the
  cache as it was; once \<open>t1 - t0\<close> has reached the time-to-live the lookup returns nothing and
  removes the entry. On any cache whatsoever a lookup returns a value only from an entry
  whose age is strictly below its time-to-live.
\<close>

theorem cache_round_trip:
  "timestamp (the (setCachedData c t0 k v m k)) = t0
   \<and> ttl (the (setCachedData c t0 k v m k)) = (case m of None \<Rightarrow> 5 | Some x \<Rightarrow> x) * 60 * 1000
   \<and> (t1 - t0 < ttl (the (setCachedData c t0 k v m k)) \<longrightarrow>
        getCachedData (setCachedData c t0 k v m) t1 k = (Some v, setCachedData c t0 k v m))
   \<and> (ttl (the (setCachedData c t0 k v m k)) \<le> t1 - t0 \<longrightarrow>
        getCachedData (setCachedData c t0 k v m) t1 k = (None, (setCachedData c t0 k v m)(k := None))
        \<and> snd (getCachedData (setCachedData c t0 k v m) t1 k) k = None)
   \<and> (fst (getCachedData c' now k) = Some d \<longrightarrow>
        (\<exists>e. c' k = Some e \<and> data e = d \<and> now - timestamp e < ttl e))"
proof (intro conjI impI)
  assume "fst (getCachedData c' now k) = Some d"
  then show "\<exists>e. c' k = Some e \<and> data e = d \<and> now - timestamp e < ttl e"
    by (cases "c' k") (simp_all add: getCachedData_def split: if_splits)
qed (simp_all add: getCachedData_def setCachedData_def)

theorem cache_round_trip_witness:
  "(60999::int) - 1000 < ttl (the (setCachedData Map.empty 1000 ''trending_coins'' (7::nat) (Some 1) ''trending_coins''))
   \<and> getCachedData (setCachedData Map.empty 1000 ''trending_coins'' (7::nat) (Some 1)) 60999 ''trending_coins''
       = (Some 7, setCachedData Map.empty 1000 ''trending_coins'' 7 (Some 1))
   \<and> ttl (the (setCachedData Map.empty 1000 ''trending_coins'' (7::nat) None ''trending_coins'')) \<le> 301000 - 1000
   \<and> getCachedData (setCachedData Map.empty 1000 ''trending_coins'' (7::nat) None) 301000 ''trending_coins''
       = (None, (setCachedData Map.empty 1000 ''trending_coins'' 7 None)(''trending_coins'' := None))
   \<and> fst (getCachedData (setCachedData Map.empty 1000 ''k'' (7::nat) (Some 1)) 2000 ''k'') = Some 7
   \<and> (2000::int) - timestamp (the (setCachedData Map.empty 1000 ''k'' (7::nat) (Some 1) ''k''))
        < ttl (the (setCachedData Map.empty 1000 ''k'' (7::nat) (Some 1) ''k''))"
proof -
  let ?c = "setCachedData Map.empty 1000 ''k'' (7::nat) (Some 1)"
  have young: "(60999::int) - 1000
      < ttl (the (setCachedData Map.empty 1000 ''trending_coins'' (7::nat) (Some 1) ''trending_coins''))"
    by (simp add: setCachedData_def)
  have old: "ttl (the (setCachedData Map.empty 1000 ''trending_coins'' (7::nat) None ''trending_coins''))
      \<le> 301000 - 1000"
    by (simp add: setCachedData_def)
  have a: "fst (getCachedData ?c 2000 ''k'') = Some 7"
    by (simp add: getCachedData_def setCachedData_def)
  have fresh: "getCachedData (setCachedData Map.empty 1000 ''trending_coins'' (7::nat) (Some 1)) 60999
        ''trending_coins'' = (Some 7, setCachedData Map.empty 1000 ''trending_coins'' 7 (Some 1))"
    using cache_round_trip [where ?t1.0 = 60999 and ?t0.0 = 1000 and m = "Some 1" and c = Map.empty
                              and k = "''trending_coins''" and v = "7::nat",
                            THEN conjunct2, THEN conjunct2, THEN conjunct1, rule_format, OF young]
    by simp
  have stale: "getCachedData (setCachedData Map.empty 1000 ''trending_coins'' (7::nat) None) 301000
        ''trending_coins'' = (None, (setCachedData Map.empty 1000 ''trending_coins'' 7 None)(''trending_coins'' := None))"
    using cache_round_trip [where ?t1.0 = 301000 and ?t0.0 = 1000 and m = None and c = Map.empty
                              and k = "''trending_coins''" and v = "7::nat",
                            THEN conjunct2, THEN conjunct2, THEN conjunct2, THEN conjunct1, rule_format,
                            OF old, THEN conjunct1]
    by simp
  have served: "\<exists>e. ?c ''k'' = Some e \<and> data e = 7 \<and> 2000 - timestamp e < ttl e"
    by (rule cache_round_trip [where c' = ?c and now = 2000 and k = "''k''" and d = 7,
          THEN conjunct2, THEN conjunct2, THEN conjunct2, THEN conjunct2, rule_format, OF a])
  then obtain e where e: "?c ''k'' = Some e" "2000 - timestamp e < ttl e"
    by blast
  have age: "(2000::int) - timestamp (the (?c ''k'')) < ttl (the (?c ''k''))"
    unfolding e(1) using e(2) by simp
  show ?thesis
    by (intro conjI; fact)
qed

section \<open>Properties of the retention sweep\<close>

lemma filter_enumerate_le:
  "filter (\<lambda>(rn, m). rn < n + k) (enumerate n xs) = enumerate n (take k xs)"
proof (induction xs arbitrary: n k)
  case Nil
  then show ?case by simp
next
  case (Cons x xs)
  show ?case
  proof (cases k)
    case 0
    have "filter (\<lambda>(rn, m). rn < n) (enumerate n (x # xs)) = []"
      by (auto simp: filter_empty_conv in_set_enumerate_eq)
    with 0 show ?thesis by simp
  next
    case (Suc j)
    have "filter (\<lambda>(rn, m). rn < Suc n + j) (enumerate (Suc n) xs) = enumerate (Suc n) (take j xs)"
      by (rule Cons.IH)
    with Suc show ?thesis by simp
  qed
qed

lemma filter_enumerate_50:
  "filter (\<lambda>(rn, m). rn \<le> 50) (enumerate 1 xs) = enumerate 1 (take 50 xs)"
proof -
  have "(\<lambda>(rn::nat, m::'a). rn \<le> 50) = (\<lambda>(rn, m). rn < 1 + 50)"
    by (auto simp: fun_eq_iff)
  then show ?thesis
    using filter_enumerate_le [of 1 50 xs] by simp
qed

lemma map_snd_enumerate: "map (\<lambda>(rn, m). f m) (enumerate n ys) = map f ys"
  by (induction ys arbitrary: n) simp_all

lemma keep_ids_newest:
  "keep_ids tbl = concat (map (\<lambda>c. map msg_id (newest_50 tbl c)) (remdups (map coin_id (not_deleted tbl))))"
  by (simp add: keep_ids_def ranked_def filter_concat map_concat comp_def
        filter_enumerate_50 [unfolded One_nat_def] newest_50_def room_messages_def map_snd_enumerate)

lemma set_order_desc [simp]: "set (order_created_at_desc xs) = set xs"
  by (simp add: order_created_at_desc_def)

lemma length_order_desc [simp]: "length (order_created_at_desc xs) = length xs"
  by (simp add: order_created_at_desc_def)

lemma distinct_order_desc [simp]: "distinct (order_created_at_desc xs) = distinct xs"
  by (simp add: order_created_at_desc_def)

lemma newest_50_subset: "m \<in> set (newest_50 tbl c) \<Longrightarrow> m \<in> set (room_messages tbl c)"
  by (auto simp: newest_50_def dest: in_set_takeD)

lemma room_messages_iff:
  "m \<in> set (room_messages tbl c) \<longleftrightarrow> m \<in> set tbl \<and> is_deleted m = Some False \<and> coin_id m = c"
  by (auto simp: room_messages_def not_deleted_def)

lemma newest_50_coin: "m \<in> set (newest_50 tbl c) \<Longrightarrow> coin_id m = c \<and> m \<in> set tbl \<and> is_deleted m = Some False"
proof -
  assume "m \<in> set (newest_50 tbl c)"
  then have "m \<in> set (room_messages tbl c)" by (rule newest_50_subset)
  then show ?thesis by (simp add: room_messages_iff)
qed

lemma in_keep_ids:
  "i \<in> set (keep_ids tbl) \<longleftrightarrow>
     (\<exists>c \<in> set (not_deleted tbl). \<exists>m \<in> set (newest_50 tbl (coin_id c)). i = msg_id m)"
  by (simp add: keep_ids_newest image_iff Bex_def) blast

lemma survives_iff:
  assumes "distinct (map msg_id tbl)"
  shows "m \<in> set (cleanup_old_messages tbl) \<longleftrightarrow> m \<in> set (newest_50 tbl (coin_id m))"
proof
  assume "m \<in> set (cleanup_old_messages tbl)"
  then have m: "m \<in> set tbl" "msg_id m \<in> set (keep_ids tbl)"
    by (simp_all add: cleanup_old_messages_def)
  from m(2) obtain c :: chat_message and k where k: "k \<in> set (newest_50 tbl (coin_id c))" "msg_id m = msg_id k"
    unfolding in_keep_ids by blast
  have kc: "coin_id k = coin_id c" "k \<in> set tbl"
    using newest_50_coin [OF k(1)] by simp_all
  have inj: "inj_on msg_id (set tbl)"
    using assms by (simp add: distinct_map)
  have "m = k"
    using inj_on_eq_iff [OF inj m(1) kc(2)] k(2) by simp
  with k(1) kc(1) show "m \<in> set (newest_50 tbl (coin_id m))" by simp
next
  assume k: "m \<in> set (newest_50 tbl (coin_id m))"
  have mt: "m \<in> set tbl" "is_deleted m = Some False"
    using newest_50_coin [OF k] by simp_all
  then have "m \<in> set (not_deleted tbl)"
    by (simp add: not_deleted_def)
  with k have "msg_id m \<in> set (keep_ids tbl)"
    unfolding in_keep_ids by blast
  with mt(1) show "m \<in> set (cleanup_old_messages tbl)"
    by (simp add: cleanup_old_messages_def)
qed

lemma remaining_set:
  assumes "distinct (map msg_id tbl)"
  shows "set (filter (\<lambda>m. coin_id m = c) (cleanup_old_messages tbl)) = set (newest_50 tbl c)"
proof (intro equalityI subsetI)
  fix m assume "m \<in> set (filter (\<lambda>m. coin_id m = c) (cleanup_old_messages tbl))"
  then show "m \<in> set (newest_50 tbl c)"
    using survives_iff [OF assms, of m] by auto
next
  fix m assume m: "m \<in> set (newest_50 tbl c)"
  have "coin_id m = c"
    using newest_50_coin [OF m] by simp
  with m show "m \<in> set (filter (\<lambda>m. coin_id m = c) (cleanup_old_messages tbl))"
    using survives_iff [OF assms, of m] by simp
qed

lemma sorted_take_drop:
  assumes "sorted (map f zs)" "a \<in> set (take k zs)" "b \<in> set (drop k zs)"
  shows "f a \<le> f b"
proof -
  have "map f (take k zs) @ map f (drop k zs) = map f zs"
    by (simp only: map_append [symmetric] append_take_drop_id)
  with assms(1) have "sorted (map f (take k zs) @ map f (drop k zs))"
    by simp
  with assms(2,3) show ?thesis
    by (auto simp: sorted_append)
qed

lemma order_desc_take_newest:
  assumes "k \<in> set (take n (order_created_at_desc xs))"
      and "d \<in> set (drop n (order_created_at_desc xs))"
  shows "recency (created_at d) \<le> recency (created_at k)"
proof -
  let ?zs = "sort_key (\<lambda>m. recency (created_at m)) xs"
  have k: "k \<in> set (drop (length ?zs - n) ?zs)"
    using assms(1) by (simp add: order_created_at_desc_def take_rev)
  have d: "d \<in> set (take (length ?zs - n) ?zs)"
    using assms(2) by (simp add: order_created_at_desc_def drop_rev)
  show ?thesis
    by (rule sorted_take_drop [OF _ d k]) simp
qed

lemma remaining_length:
  assumes "distinct (map msg_id tbl)"
  shows "length (filter (\<lambda>m. coin_id m = c) (cleanup_old_messages tbl)) = min 50 (length (room_messages tbl c))"
proof -
  have dt: "distinct tbl"
    using assms by (simp add: distinct_map)
  then have d1: "distinct (filter (\<lambda>m. coin_id m = c) (cleanup_old_messages tbl))"
    by (simp add: cleanup_old_messages_def)
  have d2: "distinct (newest_50 tbl c)"
    using dt by (simp add: newest_50_def room_messages_def not_deleted_def)
  have "card (set (filter (\<lambda>m. coin_id m = c) (cleanup_old_messages tbl))) = card (set (newest_50 tbl c))"
    by (simp only: remaining_set [OF assms, of c])
  then have "length (filter (\<lambda>m. coin_id m = c) (cleanup_old_messages tbl)) = length (newest_50 tbl c)"
    by (simp only: distinct_card [OF d1] distinct_card [OF d2])
  then show ?thesis
    by (simp add: newest_50_def min.commute)
qed

text \<open>
  Claim C8. Let the table's identifiers be distinct (\<^verbatim>\<open>id\<close> is the primary key). After one run
  of \<open>cleanup_old_messages\<close>, the rows left in a room are non-deleted messages of that room,
  there are 50 of them when the room held at least 50 non-deleted messages (all of them
  otherwise), every non-deleted message of the room that was removed is at most as recent as
  every message that was kept, and the number of non-deleted messages removed is the excess
  over 50 (10 when the room held 60).
\<close>

theorem retention_keeps_newest_50:
  assumes "distinct (map msg_id tbl)"
  shows "set (filter (\<lambda>m. coin_id m = c) (cleanup_old_messages tbl)) \<subseteq> set (room_messages tbl c)
       \<and> length (filter (\<lambda>m. coin_id m = c) (cleanup_old_messages tbl))
           = min 50 (length (room_messages tbl c))
       \<and> (\<forall>k \<in> set (filter (\<lambda>m. coin_id m = c) (cleanup_old_messages tbl)).
            \<forall>d \<in> set (room_messages tbl c).
              d \<notin> set (cleanup_old_messages tbl) \<longrightarrow> recency (created_at d) \<le> recency (created_at k))
       \<and> length (filter (\<lambda>d. d \<notin> set (cleanup_old_messages tbl)) (room_messages tbl c))
           = length (room_messages tbl c) - 50"
proof (intro conjI ballI impI)
  show "set (filter (\<lambda>m. coin_id m = c) (cleanup_old_messages tbl)) \<subseteq> set (room_messages tbl c)"
    unfolding remaining_set [OF assms] by (auto dest: newest_50_subset)
next
  show "length (filter (\<lambda>m. coin_id m = c) (cleanup_old_messages tbl))
          = min 50 (length (room_messages tbl c))"
    by (rule remaining_length [OF assms])
next
  fix k d
  assume k: "k \<in> set (filter (\<lambda>m. coin_id m = c) (cleanup_old_messages tbl))"
    and d: "d \<in> set (room_messages tbl c)" "d \<notin> set (cleanup_old_messages tbl)"
  have k': "k \<in> set (take 50 (order_created_at_desc (room_messages tbl c)))"
    using k unfolding remaining_set [OF assms] by (simp add: newest_50_def)
  have dc: "coin_id d = c"
    using d(1) by (simp add: room_messages_iff)
  have "d \<notin> set (take 50 (order_created_at_desc (room_messages tbl c)))"
    using d(2) dc survives_iff [OF assms, of d] by (simp add: newest_50_def)
  moreover have "d \<in> set (take 50 (order_created_at_desc (room_messages tbl c)))
                   \<union> set (drop 50 (order_created_at_desc (room_messages tbl c)))"
    using d(1) by (simp only: set_append [symmetric] append_take_drop_id set_order_desc)
  ultimately have "d \<in> set (drop 50 (order_created_at_desc (room_messages tbl c)))"
    by simp
  with k' show "recency (created_at d) \<le> recency (created_at k)"
    by (rule order_desc_take_newest)
next
  let ?rm = "room_messages tbl c"
  have dt: "distinct tbl"
    using assms by (simp add: distinct_map)
  have "filter (\<lambda>d. d \<notin> set (cleanup_old_messages tbl)) ?rm
          = filter (\<lambda>d. \<not> (coin_id d = c \<and> d \<in> set (cleanup_old_messages tbl))) ?rm"
    by (rule filter_cong) (simp_all add: room_messages_iff)
  also have "\<dots> = filter (\<lambda>d. d \<notin> set (filter (\<lambda>m. coin_id m = c) (cleanup_old_messages tbl))) ?rm"
    by (rule filter_cong) auto
  finally have "length (filter (\<lambda>d. d \<notin> set (cleanup_old_messages tbl)) ?rm)
      = length (filter (\<lambda>d. d \<notin> set (newest_50 tbl c)) ?rm)"
    by (simp only: remaining_set [OF assms])
  moreover have "length (filter (\<lambda>d. d \<in> set (newest_50 tbl c)) ?rm) = length (newest_50 tbl c)"
  proof -
    have d1: "distinct ?rm"
      using dt by (simp add: room_messages_def not_deleted_def)
    have d2: "distinct (newest_50 tbl c)"
      using d1 by (simp add: newest_50_def)
    have "set (filter (\<lambda>d. d \<in> set (newest_50 tbl c)) ?rm) = set (newest_50 tbl c)"
      by (auto dest: newest_50_subset)
    then have "card (set (filter (\<lambda>d. d \<in> set (newest_50 tbl c)) ?rm)) = card (set (newest_50 tbl c))"
      by (rule arg_cong)
    moreover have "distinct (filter (\<lambda>d. d \<in> set (newest_50 tbl c)) ?rm)"
      using d1 by simp
    ultimately show ?thesis
      using d2 by (simp only: distinct_card)
  qed
  moreover have "length (filter (\<lambda>d. d \<in> set (newest_50 tbl c)) ?rm)
                 + length (filter (\<lambda>d. d \<notin> set (newest_50 tbl c)) ?rm) = length ?rm"
    using sum_length_filter_compl [of "\<lambda>d. d \<in> set (newest_50 tbl c)" ?rm] by simp
  ultimately show "length (filter (\<lambda>d. d \<notin> set (cleanup_old_messages tbl)) ?rm) = length ?rm - 50"
    by (simp add: newest_50_def)
qed

theorem retention_keeps_newest_50_witness:
  "distinct (map msg_id (map (\<lambda>i. chat_row ''bitcoin'' i False) [0..<60] @ [chat_row ''ethereum'' 60 False]))
   \<and> length (room_messages (map (\<lambda>i. chat_row ''bitcoin'' i False) [0..<60] @ [chat_row ''ethereum'' 60 False])
               (Some ''bitcoin'')) = 60
   \<and> length (filter (\<lambda>m. coin_id m = Some ''bitcoin'')
               (cleanup_old_messages
                  (map (\<lambda>i. chat_row ''bitcoin'' i False) [0..<60] @ [chat_row ''ethereum'' 60 False]))) = 50
   \<and> length (filter (\<lambda>d. d \<notin> set (cleanup_old_messages
                  (map (\<lambda>i. chat_row ''bitcoin'' i False) [0..<60] @ [chat_row ''ethereum'' 60 False])))
               (room_messages (map (\<lambda>i. chat_row ''bitcoin'' i False) [0..<60] @ [chat_row ''ethereum'' 60 False])
                  (Some ''bitcoin''))) = 10
   \<and> map msg_id (cleanup_old_messages
                  (map (\<lambda>i. chat_row ''bitcoin'' i False) [0..<60] @ [chat_row ''ethereum'' 60 False]))
       = [10..<61]
   \<and> recency (created_at (chat_row ''bitcoin'' 9 False)) \<le> recency (created_at (chat_row ''bitcoin'' 10 False))"
proof -
  let ?T = "map (\<lambda>i. chat_row ''bitcoin'' i False) [0..<60] @ [chat_row ''ethereum'' 60 False]"
  let ?c = "Some ''bitcoin''"
  have d: "distinct (map msg_id ?T)"
    by code_simp
  have n: "length (room_messages ?T ?c) = 60"
    by code_simp
  have ids: "map msg_id (cleanup_old_messages ?T) = [10..<61]"
    by code_simp
  have kept: "chat_row ''bitcoin'' 10 False \<in> set (filter (\<lambda>m. coin_id m = ?c) (cleanup_old_messages ?T))"
    by code_simp
  have gone: "chat_row ''bitcoin'' 9 False \<in> set (room_messages ?T ?c)"
    "chat_row ''bitcoin'' 9 False \<notin> set (cleanup_old_messages ?T)"
    by code_simp+
  note inst = retention_keeps_newest_50 [OF d, of ?c]
  have len: "length (filter (\<lambda>m. coin_id m = ?c) (cleanup_old_messages ?T)) = 50"
    using inst n by simp
  have rem: "length (filter (\<lambda>d. d \<notin> set (cleanup_old_messages ?T)) (room_messages ?T ?c)) = 10"
    using inst n by simp
  have ord: "recency (created_at (chat_row ''bitcoin'' 9 False)) \<le> recency (created_at (chat_row ''bitcoin'' 10 False))"
    using inst kept gone by blast
  show ?thesis
    using d n len rem ids ord by simp
qed

text \<open>
  Claim C10. With distinct identifiers, no row whose soft-delete flag is set survives a run of
  \<open>cleanup_old_messages\<close>, whatever its age and however few messages its room holds: every
  row that survives has the flag \<^verbatim>\<open>false\<close>.
\<close>

theorem sweep_removes_soft_deleted:
  assumes "distinct (map msg_id tbl)"
  shows "(\<forall>m \<in> set tbl. is_deleted m = Some True \<longrightarrow> m \<notin> set (cleanup_old_messages tbl))
       \<and> (\<forall>m \<in> set (cleanup_old_messages tbl). is_deleted m = Some False)"
proof -
  have live: "is_deleted m = Some False" if "m \<in> set (cleanup_old_messages tbl)" for m
    using that survives_iff [OF assms, of m] newest_50_coin [of m tbl "coin_id m"] by simp
  then show ?thesis by fastforce
qed

theorem sweep_removes_soft_deleted_witness:
  "distinct (map msg_id [chat_row ''bitcoin'' 1 False, chat_row ''bitcoin'' 2 True])
   \<and> chat_row ''bitcoin'' 2 True \<in> set [chat_row ''bitcoin'' 1 False, chat_row ''bitcoin'' 2 True]
   \<and> is_deleted (chat_row ''bitcoin'' 2 True) = Some True
   \<and> chat_row ''bitcoin'' 2 True
        \<notin> set (cleanup_old_messages [chat_row ''bitcoin'' 1 False, chat_row ''bitcoin'' 2 True])
   \<and> chat_row ''bitcoin'' 1 False
        \<in> set (cleanup_old_messages [chat_row ''bitcoin'' 1 False, chat_row ''bitcoin'' 2 True])
   \<and> is_deleted (chat_row ''bitcoin'' 1 False) = Some False"
proof -
  let ?T = "[chat_row ''bitcoin'' 1 False, chat_row ''bitcoin'' 2 True]"
  have d: "distinct (map msg_id ?T)"
    by code_simp
  have stays: "chat_row ''bitcoin'' 1 False \<in> set (cleanup_old_messages ?T)"
    by code_simp
  have flag: "is_deleted (chat_row ''bitcoin'' 2 True) = Some True"
    by (simp add: chat_row_def)
  from sweep_removes_soft_deleted [OF d] flag stays
  have "chat_row ''bitcoin'' 2 True \<notin> set (cleanup_old_messages ?T)"
    and "is_deleted (chat_row ''bitcoin'' 1 False) = Some False"
    by auto
  with d stays flag show ?thesis by simp
qed

section \<open>Properties of \<^verbatim>\<open>send_message\<close>\<close>

lemma insert_message_ok:
  assumes "resp_error (snd (insert_message env db coinId userId txt)) = None"
  shows "insert_message env db coinId userId txt =
           (db\<lparr>chat_messages := chat_messages db @
               [\<lparr>msg_id = gen_random_uuid env, coin_id = Some coinId, user_id = Some userId,
                 content = txt, created_at = Some (db_now env), is_deleted = Some False\<rparr>]\<rparr>,
            \<lparr>resp_data = Some (join_users db
               \<lparr>msg_id = gen_random_uuid env, coin_id = Some coinId, user_id = Some userId,
                content = txt, created_at = Some (db_now env), is_deleted = Some False\<rparr>),
             resp_error = None\<rparr>)"
    and "userId \<in> set (map u_id (users db))"
  using assms by (simp_all add: insert_message_def split: if_splits)

lemma insert_message_failed:
  assumes "insert_message env db coinId userId txt = (db', r)" "resp_error r \<noteq> None"
  shows "db' = db"
proof (cases "messages_fail env \<or> gen_random_uuid env \<in> set (map msg_id (chat_messages db))
         \<or> coinId \<notin> set (coins db) \<or> userId \<notin> set (map u_id (users db))")
  case True
  then show ?thesis
    using assms(1) unfolding insert_message_def by (simp only: if_True prod.inject)
next
  case False
  then have "resp_error r = None"
    using assms(1) unfolding insert_message_def by (auto simp only: if_False prod.inject response.simps)
  with assms(2) show ?thesis by simp
qed

lemma join_users_nonempty:
  assumes "userId \<in> set (map u_id (users db))" "user_id m = Some userId"
  shows "j_users (join_users db m) \<noteq> []"
  using assms by (auto simp: join_users_def filter_empty_conv)

lemma format_message_joined:
  assumes "j_users (join_users db m) \<noteq> []"
  shows "\<exists>fm. format_message (join_users db m) = Some fm \<and> f_id fm = msg_id m
            \<and> f_coinId fm = coin_id m \<and> f_content fm = content m \<and> f_createdAt fm = created_at m"
  using assms by (cases "j_users (join_users db m)") (simp_all add: format_message_def join_users_def)

lemma deliveries_to:
  assumes "distinct xs"
  shows "length (filter (\<lambda>d. fst d = t) (map (\<lambda>t. (t, ev)) (filter P xs)))
           = (if t \<in> set xs \<and> P t then 1 else 0)"
  using assms by (induction xs) auto

text \<open>
  Claim C1. Let the socket ids be distinct, and let a \<open>send_message\<close> pass validation, find its
  user and persist its message (the insert answers without error). Then the table holds a new
  row with the generated identifier, the room and the trimmed text, and the deliveries of the
  handler are one \<open>message\<close> event carrying that identifier for every connected socket that is
  in the target room at the time of the broadcast, the sender included when it is in the room:
  every such socket receives exactly one delivery and every other socket none.
\<close>

theorem send_message_broadcast:
  assumes "distinct (sockets st)"
      and "coinId \<noteq> []" "trim message \<noteq> []" "length message \<le> 500"
      and "getUserIdFromSub env db (sub (user st s)) = Some userId"
      and "resp_error (snd (insert_message env db coinId userId (trim message))) = None"
  shows "\<exists>fm. f_id fm = gen_random_uuid env \<and> f_content fm = trim message \<and> f_coinId fm = Some coinId
          \<and> (\<exists>row \<in> set (chat_messages (fst (send_message env db st s coinId message))).
                msg_id row = f_id fm \<and> coin_id row = Some coinId \<and> content row = trim message)
          \<and> snd (send_message env db st s coinId message)
              = map (\<lambda>t. (t, MessageEvent fm)) (filter (\<lambda>t. coinId \<in> set (rooms st t)) (sockets st))
          \<and> (\<forall>t. length (filter (\<lambda>d. fst d = t) (snd (send_message env db st s coinId message)))
                  = (if t \<in> set (sockets st) \<and> coinId \<in> set (rooms st t) then 1 else 0))"
proof -
  let ?row = "\<lparr>msg_id = gen_random_uuid env, coin_id = Some coinId, user_id = Some userId,
                content = trim message, created_at = Some (db_now env), is_deleted = Some False\<rparr>"
  note ins = insert_message_ok [OF assms(6)]
  have "j_users (join_users db ?row) \<noteq> []"
    using ins(2) by (rule join_users_nonempty) simp
  then obtain fm where fm: "format_message (join_users db ?row) = Some fm" "f_id fm = msg_id ?row"
      "f_coinId fm = coin_id ?row" "f_content fm = content ?row"
    using format_message_joined by blast
  have run: "send_message env db st s coinId message
      = (db\<lparr>chat_messages := chat_messages db @ [?row]\<rparr>,
         namespace_to_emit st coinId (MessageEvent fm))"
    using assms(2-5) fm(1) by (simp add: send_message_def ins(1))
  have count: "length (filter (\<lambda>d. fst d = t) (namespace_to_emit st coinId (MessageEvent fm)))
                  = (if t \<in> set (sockets st) \<and> coinId \<in> set (rooms st t) then 1 else 0)" for t
    unfolding namespace_to_emit_def by (rule deliveries_to [OF assms(1)])
  show ?thesis
    apply (rule exI [of _ fm])
    using fm(2-4) count by (simp add: run namespace_to_emit_def)
qed

theorem send_message_broadcast_witness:
  "distinct (sockets sample_server) \<and> ''bitcoin'' \<noteq> [] \<and> trim ''hello'' \<noteq> [] \<and> length ''hello'' \<le> 500
   \<and> getUserIdFromSub sample_env sample_db (sub (user sample_server ''A'')) = Some 1
   \<and> resp_error (snd (insert_message sample_env sample_db ''bitcoin'' 1 (trim ''hello''))) = None
   \<and> map fst (snd (send_message sample_env sample_db sample_server ''A'' ''bitcoin'' ''hello'')) = [''A'', ''B'']
   \<and> length (filter (\<lambda>d. fst d = ''A'')
         (snd (send_message sample_env sample_db sample_server ''A'' ''bitcoin'' ''hello''))) = 1
   \<and> length (filter (\<lambda>d. fst d = ''B'')
         (snd (send_message sample_env sample_db sample_server ''A'' ''bitcoin'' ''hello''))) = 1
   \<and> length (filter (\<lambda>d. fst d = ''C'')
         (snd (send_message sample_env sample_db sample_server ''A'' ''bitcoin'' ''hello''))) = 0
   \<and> map msg_id (chat_messages (fst (send_message sample_env sample_db sample_server ''A'' ''bitcoin'' ''hello'')))
       = [gen_random_uuid sample_env]"
proof -
  have h1: "distinct (sockets sample_server)" by code_simp
  have h2: "''bitcoin'' \<noteq> []" by simp
  have h3: "trim ''hello'' \<noteq> []" by code_simp
  have h4: "length ''hello'' \<le> 500" by simp
  have h5: "getUserIdFromSub sample_env sample_db (sub (user sample_server ''A'')) = Some 1"
    by code_simp
  have h6: "resp_error (snd (insert_message sample_env sample_db ''bitcoin'' 1 (trim ''hello''))) = None"
    by code_simp
  have tos: "map fst (snd (send_message sample_env sample_db sample_server ''A'' ''bitcoin'' ''hello''))
      = [''A'', ''B'']"
    by code_simp
  have ids: "map msg_id (chat_messages (fst (send_message sample_env sample_db sample_server ''A''
      ''bitcoin'' ''hello''))) = [gen_random_uuid sample_env]"
    by code_simp
  from send_message_broadcast [OF h1 h2 h3 h4 h5 h6]
  have cnt: "length (filter (\<lambda>d. fst d = t)
        (snd (send_message sample_env sample_db sample_server ''A'' ''bitcoin'' ''hello'')))
      = (if t \<in> set (sockets sample_server) \<and> ''bitcoin'' \<in> set (rooms sample_server t) then 1 else 0)" for t
    by blast
  have a: "length (filter (\<lambda>d. fst d = ''A'')
        (snd (send_message sample_env sample_db sample_server ''A'' ''bitcoin'' ''hello''))) = 1"
    unfolding cnt by (simp add: sample_server_def)
  have b: "length (filter (\<lambda>d. fst d = ''B'')
        (snd (send_message sample_env sample_db sample_server ''A'' ''bitcoin'' ''hello''))) = 1"
    unfolding cnt by (simp add: sample_server_def)
  have c: "length (filter (\<lambda>d. fst d = ''C'')
        (snd (send_message sample_env sample_db sample_server ''A'' ''bitcoin'' ''hello''))) = 0"
    unfolding cnt by (simp add: sample_server_def)
  show ?thesis
    using h1 h3 h5 h6 tos ids a b c by simp
qed

text \<open>
  Claim C3. When a \<open>send_message\<close> has passed validation and found its user, and the insert
  answers with an error, the only delivery is one \<open>error\<close> event to the sender; no \<open>message\<close>
  event is sent to anyone and the table is unchanged.
\<close>

theorem send_message_persist_failure:
  assumes "coinId \<noteq> []" "trim message \<noteq> []" "length message \<le> 500"
      and "getUserIdFromSub env db (sub (user st s)) = Some userId"
      and "resp_error (snd (insert_message env db coinId userId (trim message))) \<noteq> None"
  shows "send_message env db st s coinId message = (db, [(s, ErrorEvent ''Failed to send message'')])"
proof -
  obtain db' r where ins: "insert_message env db coinId userId (trim message) = (db', r)"
    by (cases "insert_message env db coinId userId (trim message)")
  with assms(5) have r: "resp_error r \<noteq> None" by simp
  have "db' = db"
    using ins r by (rule insert_message_failed)
  with assms(1-4) ins r show ?thesis
    by (simp add: send_message_def socket_emit_def)
qed

theorem send_message_persist_failure_witness:
  "''bitcoin'' \<noteq> [] \<and> trim ''hello'' \<noteq> [] \<and> length ''hello'' \<le> 500
   \<and> getUserIdFromSub (sample_env\<lparr>messages_fail := True\<rparr>) sample_db (sub (user sample_server ''A'')) = Some 1
   \<and> resp_error (snd (insert_message (sample_env\<lparr>messages_fail := True\<rparr>) sample_db ''bitcoin'' 1
         (trim ''hello''))) \<noteq> None
   \<and> send_message (sample_env\<lparr>messages_fail := True\<rparr>) sample_db sample_server ''A'' ''bitcoin'' ''hello''
       = (sample_db, [(''A'', ErrorEvent ''Failed to send message'')])"
proof -
  have h1: "''bitcoin'' \<noteq> []" by simp
  have h2: "trim ''hello'' \<noteq> []" by code_simp
  have h3: "length ''hello'' \<le> 500" by simp
  have h4: "getUserIdFromSub (sample_env\<lparr>messages_fail := True\<rparr>) sample_db
      (sub (user sample_server ''A'')) = Some 1"
    by code_simp
  have h5: "resp_error (snd (insert_message (sample_env\<lparr>messages_fail := True\<rparr>) sample_db ''bitcoin'' 1
         (trim ''hello''))) \<noteq> None"
    by code_simp
  show ?thesis
    using h2 h4 h5 send_message_persist_failure [OF h1 h2 h3 h4 h5] by simp
qed

section \<open>Properties of \<^verbatim>\<open>join_room\<close> and \<^verbatim>\<open>leave_room\<close>\<close>

lemma socket_leave_simps [simp]:
  "sockets (socket_leave st s r) = sockets st"
  "user (socket_leave st s r) = user st"
  "rooms (socket_leave st s r) t = (if t = s then removeAll r (rooms st s) else rooms st t)"
  by (simp_all add: socket_leave_def)

lemma socket_join_simps [simp]:
  "sockets (socket_join st s r) = sockets st"
  "user (socket_join st s r) = user st"
  "rooms (socket_join st s r) t =
     (if t = s then (if r \<in> set (rooms st s) then rooms st s else rooms st s @ [r]) else rooms st t)"
  by (simp_all add: socket_join_def)

lemma fold_leave:
  "sockets (fold (\<lambda>room st'. if room \<noteq> s then socket_leave st' s room else st') xs st) = sockets st
   \<and> user (fold (\<lambda>room st'. if room \<noteq> s then socket_leave st' s room else st') xs st) = user st
   \<and> rooms (fold (\<lambda>room st'. if room \<noteq> s then socket_leave st' s room else st') xs st) t
       = (if t = s then filter (\<lambda>r. r = s \<or> r \<notin> set xs) (rooms st s) else rooms st t)"
proof (induction xs arbitrary: st)
  case Nil
  then show ?case by simp
next
  case (Cons x xs)
  show ?case
  proof (cases "x = s")
    case True
    then show ?thesis
      using Cons.IH [of st] by (auto intro: filter_cong)
  next
    case False
    have "filter (\<lambda>r. r = s \<or> r \<notin> set xs) (removeAll x ys)
            = filter (\<lambda>r. r = s \<or> r \<notin> set (x # xs)) ys" for ys
      using False by (induction ys) auto
    then show ?thesis
      using False Cons.IH [of "socket_leave st s x"] by simp
  qed
qed

lemma leave_previous_rooms_simps [simp]:
  "sockets (leave_previous_rooms st s) = sockets st"
  "user (leave_previous_rooms st s) = user st"
  "rooms (leave_previous_rooms st s) t = (if t = s then filter (\<lambda>r. r = s) (rooms st s) else rooms st t)"
proof -
  have "filter (\<lambda>r. r = s \<or> r \<notin> set (rooms st s)) (rooms st s) = filter (\<lambda>r. r = s) (rooms st s)"
    by (rule filter_cong) auto
  then show "rooms (leave_previous_rooms st s) t = (if t = s then filter (\<lambda>r. r = s) (rooms st s) else rooms st t)"
    using fold_leave [of s "rooms st s" st t] by (simp add: leave_previous_rooms_def)
qed (simp_all add: leave_previous_rooms_def fold_leave)

lemma join_room_switch_simps:
  "sockets (join_room_switch st s b) = sockets st"
  "user (join_room_switch st s b) = user st"
  "t \<noteq> s \<Longrightarrow> rooms (join_room_switch st s b) t = rooms st t"
  "set (rooms (join_room_switch st s b) s) = insert b (set (rooms st s) \<inter> {s})"
  by (auto simp: join_room_switch_def)

lemma those_map_Some:
  assumes "\<And>x. x \<in> set xs \<Longrightarrow> f x \<noteq> None"
  shows "those (map f xs) = Some (map (\<lambda>x. the (f x)) xs)"
  using assms by (induction xs) (auto split: option.splits)

lemma select_recent_messages_alt:
  "select_recent_messages db coinId = take 50 (order_created_at_desc (history_candidates db coinId))"
  by (simp add: select_recent_messages_def history_candidates_def)

lemma selected_row:
  assumes "m \<in> set (select_recent_messages db coinId)"
  shows "m \<in> set (chat_messages db)" "coin_id m = Some coinId" "is_deleted m = Some False"
    "j_users (join_users db m) \<noteq> []"
proof -
  have "m \<in> set (history_candidates db coinId)"
    using assms unfolding select_recent_messages_alt by (auto dest: in_set_takeD)
  then show "m \<in> set (chat_messages db)" "coin_id m = Some coinId" "is_deleted m = Some False"
    "j_users (join_users db m) \<noteq> []"
    by (simp_all add: history_candidates_def)
qed

lemma rev_selected_sorted:
  "sorted (map (\<lambda>m. recency (created_at m)) (rev (select_recent_messages db coinId)))"
proof -
  let ?zs = "sort_key (\<lambda>m. recency (created_at m)) (history_candidates db coinId)"
  have "rev (select_recent_messages db coinId) = drop (length ?zs - 50) ?zs"
    by (simp add: select_recent_messages_alt order_created_at_desc_def take_rev)
  moreover have "sorted (drop (length ?zs - 50) (map (\<lambda>m. recency (created_at m)) ?zs))"
    by (rule sorted_wrt_drop) simp
  ultimately show ?thesis
    by (simp add: drop_map)
qed

lemma join_room_reply_snapshot:
  assumes "\<not> messages_fail env"
  shows "join_room_reply st s coinId (fetch_recent_messages env db coinId)
           = (s, RoomJoined coinId
                  (map (\<lambda>m. the (format_message (join_users db m)))
                       (rev (select_recent_messages db coinId))))
             # socket_to_emit st s coinId (UserJoined (username (user st s)))"
proof -
  let ?rows = "select_recent_messages db coinId"
  have "those (map format_message (rev (map (join_users db) ?rows)))
          = Some (map (\<lambda>x. the (format_message x)) (rev (map (join_users db) ?rows)))"
  proof (rule those_map_Some)
    fix x assume "x \<in> set (rev (map (join_users db) ?rows))"
    then obtain m where "m \<in> set ?rows" "x = join_users db m"
      by auto
    then show "format_message x \<noteq> None"
      using selected_row(4) [of m db coinId] format_message_joined [of db m] by auto
  qed
  then show ?thesis
    using assms
    by (simp add: join_room_reply_def fetch_recent_messages_def socket_emit_def rev_map comp_def)
qed

lemma join_room_reply_failure:
  assumes "messages_fail env"
  shows "join_room_reply st s coinId (fetch_recent_messages env db coinId)
           = [(s, ErrorEvent ''Failed to load messages'')]"
  using assms by (simp add: join_room_reply_def fetch_recent_messages_def socket_emit_def)

lemma join_room_state:
  "fst (join_room env db st s b) = (if b = [] then st else join_room_switch st s b)"
  by (simp add: join_room_def)

lemma leave_room_state:
  "fst (leave_room st s c) = (if c = [] then st else socket_leave st s c)"
  by (simp add: leave_room_def)

lemma join_room_deliveries:
  assumes "b \<noteq> []" "\<not> messages_fail env"
  shows "snd (join_room env db st s b)
      = (s, RoomJoined b (map (\<lambda>m. the (format_message (join_users db m)))
                              (rev (select_recent_messages db b))))
        # map (\<lambda>t. (t, UserJoined (username (user st s))))
              (filter (\<lambda>t. b \<in> set (rooms st t) \<and> t \<noteq> s) (sockets st))"
proof -
  have others: "socket_to_emit (join_room_switch st s b) s b (UserJoined (username (user st s)))
      = map (\<lambda>t. (t, UserJoined (username (user st s))))
            (filter (\<lambda>t. b \<in> set (rooms st t) \<and> t \<noteq> s) (sockets st))"
    unfolding socket_to_emit_def join_room_switch_simps(1)
    by (rule arg_cong [where f = "map _"], rule filter_cong) (auto simp: join_room_switch_simps(3))
  show ?thesis
    using assms(1) by (simp add: join_room_def join_room_reply_snapshot [OF assms(2)]
        join_room_switch_simps(2) others)
qed

text \<open>
  Claim C2. When \<open>join_room\<close> has a room identifier and the history query succeeds, the
  first delivery is the \<open>room_joined\<close> event to the joining socket, and its snapshot has at most
  50 messages: exactly 50 when the room has at least 50 non-deleted messages with an author,
  and all of them otherwise. The snapshot lists, oldest first, the first 50 of these messages
  in descending order of creation time; it is in ascending order of creation time, consists
  of messages of the room whose soft-delete flag is \<^verbatim>\<open>false\<close>, and holds the newest ones: a
  message of the room that has an author, is not deleted and is not in the snapshot is at most
  as recent as every message in it. The other deliveries are \<open>user_joined\<close> events to the
  other sockets of the room.
\<close>

theorem join_room_history:
  assumes "coinId \<noteq> []" "\<not> messages_fail env"
  shows "\<exists>snapshot.
           snd (join_room env db st s coinId)
             = (s, RoomJoined coinId snapshot)
               # map (\<lambda>t. (t, UserJoined (username (user st s))))
                     (filter (\<lambda>t. coinId \<in> set (rooms st t) \<and> t \<noteq> s) (sockets st))
         \<and> length snapshot \<le> 50
         \<and> length snapshot = min 50 (length (history_candidates db coinId))
         \<and> map f_id snapshot
             = map msg_id (rev (take 50 (order_created_at_desc (history_candidates db coinId))))
         \<and> sorted (map (\<lambda>fm. recency (f_createdAt fm)) snapshot)
         \<and> (\<forall>fm \<in> set snapshot. \<exists>m \<in> set (chat_messages db).
                msg_id m = f_id fm \<and> created_at m = f_createdAt fm
                \<and> coin_id m = Some coinId \<and> is_deleted m = Some False)
         \<and> (\<forall>fm \<in> set snapshot. \<forall>m \<in> set (chat_messages db).
                coin_id m = Some coinId \<and> is_deleted m = Some False
                \<and> j_users (join_users db m) \<noteq> [] \<and> msg_id m \<notin> f_id ` set snapshot
                \<longrightarrow> recency (created_at m) \<le> recency (f_createdAt fm))"
proof -
  let ?rows = "select_recent_messages db coinId"
  let ?fmt = "\<lambda>m. the (format_message (join_users db m))"
  let ?snap = "map ?fmt (rev ?rows)"
  have fmt: "f_id (?fmt m) = msg_id m \<and> f_createdAt (?fmt m) = created_at m" if "m \<in> set ?rows" for m
    using selected_row(4) [OF that] format_message_joined [of db m] by auto
  have out: "snd (join_room env db st s coinId)
      = (s, RoomJoined coinId ?snap)
        # map (\<lambda>t. (t, UserJoined (username (user st s))))
              (filter (\<lambda>t. coinId \<in> set (rooms st t) \<and> t \<noteq> s) (sockets st))"
    using assms by (rule join_room_deliveries)
  have len: "length ?snap \<le> 50"
    by (simp add: select_recent_messages_def)
  have cnt: "length ?snap = min 50 (length (history_candidates db coinId))"
    by (simp add: select_recent_messages_alt min.commute)
  have "map f_id ?snap = map msg_id (rev ?rows)"
    unfolding map_map comp_def by (rule map_cong) (simp_all add: fmt)
  then have sel: "map f_id ?snap
      = map msg_id (rev (take 50 (order_created_at_desc (history_candidates db coinId))))"
    by (simp only: select_recent_messages_alt)
  have "map (\<lambda>fm. recency (f_createdAt fm)) ?snap = map (\<lambda>m. recency (created_at m)) (rev ?rows)"
    unfolding map_map comp_def by (rule map_cong) (simp_all add: fmt)
  then have srt: "sorted (map (\<lambda>fm. recency (f_createdAt fm)) ?snap)"
    using rev_selected_sorted [of db coinId] by (simp only:)
  have src: "\<exists>m \<in> set (chat_messages db). msg_id m = f_id fm \<and> created_at m = f_createdAt fm
                \<and> coin_id m = Some coinId \<and> is_deleted m = Some False"
    if "fm \<in> set ?snap" for fm
  proof -
    from that obtain m where m: "m \<in> set ?rows" "fm = ?fmt m" by auto
    show ?thesis
      using selected_row(1-3) [OF m(1)] fmt [OF m(1)] m(2) by auto
  qed
  have newest: "recency (created_at m) \<le> recency (f_createdAt fm)"
    if "fm \<in> set ?snap" "m \<in> set (chat_messages db)" "coin_id m = Some coinId"
      "is_deleted m = Some False" "j_users (join_users db m) \<noteq> []" "msg_id m \<notin> f_id ` set ?snap"
    for fm m
  proof -
    from that(1) obtain k where k: "k \<in> set ?rows" "fm = ?fmt k" by auto
    have "m \<notin> set ?rows"
    proof
      assume "m \<in> set ?rows"
      then have "f_id (?fmt m) \<in> f_id ` set ?snap" by simp
      with fmt [OF \<open>m \<in> set ?rows\<close>] that(6) show False by simp
    qed
    moreover have "m \<in> set (history_candidates db coinId)"
      using that(2-5) by (simp add: history_candidates_def)
    then have "m \<in> set (take 50 (order_created_at_desc (history_candidates db coinId)))
                 \<union> set (drop 50 (order_created_at_desc (history_candidates db coinId)))"
      by (simp only: set_append [symmetric] append_take_drop_id set_order_desc)
    ultimately have "m \<in> set (drop 50 (order_created_at_desc (history_candidates db coinId)))"
      by (simp add: select_recent_messages_alt)
    moreover have "k \<in> set (take 50 (order_created_at_desc (history_candidates db coinId)))"
      using k(1) by (simp add: select_recent_messages_alt)
    ultimately have "recency (created_at m) \<le> recency (created_at k)"
      by (rule order_desc_take_newest [rotated])
    then show ?thesis
      using fmt [OF k(1)] k(2) by simp
  qed
  show ?thesis
    apply (rule exI [of _ ?snap])
    using out len cnt sel srt src newest by blast
qed

theorem join_room_history_witness:
  "''bitcoin'' \<noteq> [] \<and> \<not> messages_fail sample_env
   \<and> map fst (snd (join_room sample_env
         (sample_db\<lparr>chat_messages := map (\<lambda>i. chat_row ''bitcoin'' i False) [0..<52]
                                        @ [chat_row ''bitcoin'' 52 True, chat_row ''ethereum'' 53 False]\<rparr>)
         sample_server ''C'' ''bitcoin'')) = [''C'', ''A'', ''B'']
   \<and> (case snd (hd (snd (join_room sample_env
         (sample_db\<lparr>chat_messages := map (\<lambda>i. chat_row ''bitcoin'' i False) [0..<52]
                                        @ [chat_row ''bitcoin'' 52 True, chat_row ''ethereum'' 53 False]\<rparr>)
         sample_server ''C'' ''bitcoin''))) of
         RoomJoined c snapshot \<Rightarrow> map f_id snapshot | _ \<Rightarrow> []) = [2..<52]
   \<and> length (history_candidates
         (sample_db\<lparr>chat_messages := map (\<lambda>i. chat_row ''bitcoin'' i False) [0..<52]
                                        @ [chat_row ''bitcoin'' 52 True, chat_row ''ethereum'' 53 False]\<rparr>)
         ''bitcoin'') = 52
   \<and> length [2..<52::nat] = min 50 (length (history_candidates
         (sample_db\<lparr>chat_messages := map (\<lambda>i. chat_row ''bitcoin'' i False) [0..<52]
                                        @ [chat_row ''bitcoin'' 52 True, chat_row ''ethereum'' 53 False]\<rparr>)
         ''bitcoin''))
   \<and> sorted (map recency (map (\<lambda>i. Some (int i)) [2..<52]))
   \<and> recency (created_at (chat_row ''bitcoin'' 1 False)) \<le> recency (Some 2)"
proof -
  let ?db = "sample_db\<lparr>chat_messages := map (\<lambda>i. chat_row ''bitcoin'' i False) [0..<52]
                                        @ [chat_row ''bitcoin'' 52 True, chat_row ''ethereum'' 53 False]\<rparr>"
  let ?out = "snd (join_room sample_env ?db sample_server ''C'' ''bitcoin'')"
  have h1: "''bitcoin'' \<noteq> []" by simp
  have h2: "\<not> messages_fail sample_env" by code_simp
  have tos: "map fst ?out = [''C'', ''A'', ''B'']"
    by code_simp
  have ids: "(case snd (hd ?out) of RoomJoined c snapshot \<Rightarrow> map f_id snapshot | _ \<Rightarrow> []) = [2..<52]"
    by code_simp
  have ts: "(case snd (hd ?out) of RoomJoined c snapshot \<Rightarrow> map f_createdAt snapshot | _ \<Rightarrow> [])
      = map (\<lambda>i. Some (int i)) [2..<52]"
    by code_simp
  have row: "chat_row ''bitcoin'' 1 False \<in> set (chat_messages ?db)"
    "coin_id (chat_row ''bitcoin'' 1 False) = Some ''bitcoin''"
    "is_deleted (chat_row ''bitcoin'' 1 False) = Some False"
    "j_users (join_users ?db (chat_row ''bitcoin'' 1 False)) \<noteq> []"
    "msg_id (chat_row ''bitcoin'' 1 False) \<notin> set [2..<52]"
    by code_simp+
  from join_room_history [OF h1 h2, of ?db sample_server "''C''"]
  obtain snapshot where snap: "?out = (''C'', RoomJoined ''bitcoin'' snapshot)
        # map (\<lambda>t. (t, UserJoined (username (user sample_server ''C''))))
              (filter (\<lambda>t. ''bitcoin'' \<in> set (rooms sample_server t) \<and> t \<noteq> ''C'') (sockets sample_server))"
      and cnt: "length snapshot = min 50 (length (history_candidates ?db ''bitcoin''))"
      and srt: "sorted (map (\<lambda>fm. recency (f_createdAt fm)) snapshot)"
      and new: "\<forall>fm \<in> set snapshot. \<forall>m \<in> set (chat_messages ?db).
                coin_id m = Some ''bitcoin'' \<and> is_deleted m = Some False
                \<and> j_users (join_users ?db m) \<noteq> [] \<and> msg_id m \<notin> f_id ` set snapshot
                \<longrightarrow> recency (created_at m) \<le> recency (f_createdAt fm)"
    by blast
  have sts: "map f_createdAt snapshot = map (\<lambda>i. Some (int i)) [2..<52]"
    using ts unfolding snap by simp
  have sids: "map f_id snapshot = [2..<52]"
    using ids unfolding snap by simp
  have cands: "length (history_candidates ?db ''bitcoin'') = 52"
    by code_simp
  have "length [2..<52::nat] = length snapshot"
    unfolding sids [symmetric] by simp
  then have s0: "length [2..<52::nat] = min 50 (length (history_candidates ?db ''bitcoin''))"
    using cnt by (simp only:)
  have "map (\<lambda>fm. recency (f_createdAt fm)) snapshot = map recency (map (\<lambda>i. Some (int i)) [2..<52])"
    unfolding sts [symmetric] by (simp only: map_map comp_def)
  with srt have s1: "sorted (map recency (map (\<lambda>i. Some (int i)) [2..<52]))"
    by (simp only:)
  have "snapshot \<noteq> []"
    using sids by auto
  then obtain fm rest where fm: "snapshot = fm # rest"
    by (cases snapshot) auto
  have "f_createdAt fm = Some 2"
    using sts unfolding fm by (simp add: upt_conv_Cons)
  moreover have "msg_id (chat_row ''bitcoin'' 1 False) \<notin> f_id ` set snapshot"
    using row(5) unfolding sids [symmetric] by simp
  ultimately have s2: "recency (created_at (chat_row ''bitcoin'' 1 False)) \<le> recency (Some 2)"
    using new [rule_format, of fm "chat_row ''bitcoin'' 1 False"] row(1-4) fm by simp
  show ?thesis
    by (intro conjI; fact)
qed

text \<open>
  Claim C4 as stated fails. Sockets \<open>A\<close> and \<open>B\<close> are in room \<open>bitcoin\<close>; \<open>A\<close> joins room
  \<open>ethereum\<close>. The handler moves \<open>A\<close> and makes two deliveries, the snapshot to \<open>A\<close> and
  \<open>user_joined\<close> to \<open>D\<close> in the new room: \<open>B\<close>, which stays in \<open>bitcoin\<close>, is sent no \<open>user_left\<close>.
\<close>

theorem room_switch_without_user_left:
  "rooms sample_server ''A'' = [''A'', ''bitcoin''] \<and> rooms sample_server ''B'' = [''B'', ''bitcoin'']
   \<and> rooms (fst (join_room sample_env sample_db sample_server ''A'' ''ethereum'')) ''A''
       = [''A'', ''ethereum'']
   \<and> snd (join_room sample_env sample_db sample_server ''A'' ''ethereum'')
       = [(''A'', RoomJoined ''ethereum'' []), (''D'', UserJoined ''alice'')]"
  by code_simp

text \<open>
  Claim C4, amended. When a socket in room \<open>a\<close> (not its own private room) joins another room
  \<open>b\<close>, it is taken out of \<open>a\<close> and put into \<open>b\<close>, its rooms are then at most its private room
  and \<open>b\<close>, and the other sockets stay where they are. \<open>join_room\<close> sends no \<open>user_left\<close> event
  (only \<open>leave_room\<close> does). When the history query succeeds, the snapshot goes to the joining
  socket alone and \<open>user_joined\<close> to every other socket of \<open>b\<close>; when it fails, the only
  delivery is an \<open>error\<close> event to the joining socket, and the room switch has taken place.
\<close>

theorem join_room_switches_rooms:
  assumes "a \<in> set (rooms st s)" "a \<noteq> s" "b \<noteq> a" "b \<noteq> []"
  shows "a \<notin> set (rooms (fst (join_room env db st s b)) s)
       \<and> b \<in> set (rooms (fst (join_room env db st s b)) s)
       \<and> set (rooms (fst (join_room env db st s b)) s) \<subseteq> {s, b}
       \<and> (\<forall>t. t \<noteq> s \<longrightarrow> rooms (fst (join_room env db st s b)) t = rooms st t)
       \<and> sockets (fst (join_room env db st s b)) = sockets st
       \<and> (\<forall>d \<in> set (snd (join_room env db st s b)). \<forall>n. snd d \<noteq> UserLeft n)
       \<and> (\<not> messages_fail env \<longrightarrow>
            snd (join_room env db st s b)
              = (s, RoomJoined b (map (\<lambda>m. the (format_message (join_users db m)))
                                      (rev (select_recent_messages db b))))
                # map (\<lambda>t. (t, UserJoined (username (user st s))))
                      (filter (\<lambda>t. b \<in> set (rooms st t) \<and> t \<noteq> s) (sockets st)))
       \<and> (messages_fail env \<longrightarrow>
            snd (join_room env db st s b) = [(s, ErrorEvent ''Failed to load messages'')])"
proof -
  have st': "fst (join_room env db st s b) = join_room_switch st s b"
    using assms(4) by (simp add: join_room_state)
  have mem: "set (rooms (join_room_switch st s b) s) = insert b (set (rooms st s) \<inter> {s})"
    by (rule join_room_switch_simps(4))
  have fail: "snd (join_room env db st s b) = [(s, ErrorEvent ''Failed to load messages'')]"
    if "messages_fail env"
    using assms(4) that by (simp add: join_room_def join_room_reply_failure)
  have ok: "snd (join_room env db st s b)
              = (s, RoomJoined b (map (\<lambda>m. the (format_message (join_users db m)))
                                      (rev (select_recent_messages db b))))
                # map (\<lambda>t. (t, UserJoined (username (user st s))))
                      (filter (\<lambda>t. b \<in> set (rooms st t) \<and> t \<noteq> s) (sockets st))"
    if "\<not> messages_fail env"
    using assms(4) that by (rule join_room_deliveries)
  have noleft: "\<forall>d \<in> set (snd (join_room env db st s b)). \<forall>n. snd d \<noteq> UserLeft n"
  proof (cases "messages_fail env")
    case True
    then show ?thesis by (simp add: fail)
  next
    case False
    then show ?thesis by (auto simp: ok)
  qed
  show ?thesis
    unfolding st' using assms(2,3) mem noleft fail ok
    by (auto simp: join_room_switch_simps(1,3))
qed

theorem join_room_switches_rooms_witness:
  "''bitcoin'' \<in> set (rooms sample_server ''A'') \<and> ''bitcoin'' \<noteq> ''A'' \<and> ''ethereum'' \<noteq> ''bitcoin''
   \<and> ''ethereum'' \<noteq> [] \<and> \<not> messages_fail sample_env
   \<and> ''bitcoin'' \<notin> set (rooms (fst (join_room sample_env sample_db sample_server ''A'' ''ethereum'')) ''A'')
   \<and> ''ethereum'' \<in> set (rooms (fst (join_room sample_env sample_db sample_server ''A'' ''ethereum'')) ''A'')
   \<and> rooms (fst (join_room sample_env sample_db sample_server ''A'' ''ethereum'')) ''B''
       = rooms sample_server ''B''
   \<and> snd (join_room sample_env sample_db sample_server ''A'' ''ethereum'')
       = [(''A'', RoomJoined ''ethereum'' []), (''D'', UserJoined ''alice'')]
   \<and> snd (join_room (sample_env\<lparr>messages_fail := True\<rparr>) sample_db sample_server ''A'' ''ethereum'')
       = [(''A'', ErrorEvent ''Failed to load messages'')]"
proof -
  have h1: "''bitcoin'' \<in> set (rooms sample_server ''A'')" by code_simp
  have h2: "''bitcoin'' \<noteq> ''A''" by simp
  have h3: "''ethereum'' \<noteq> ''bitcoin''" by simp
  have h4: "''ethereum'' \<noteq> []" by simp
  have ok: "\<not> messages_fail sample_env" by code_simp
  have ko: "messages_fail (sample_env\<lparr>messages_fail := True\<rparr>)" by simp
  have ne: "''B'' \<noteq> ''A''" by simp
  have ev: "(''A'', RoomJoined ''ethereum'' (map (\<lambda>m. the (format_message (join_users sample_db m)))
                                      (rev (select_recent_messages sample_db ''ethereum''))))
                # map (\<lambda>t. (t, UserJoined (username (user sample_server ''A''))))
                      (filter (\<lambda>t. ''ethereum'' \<in> set (rooms sample_server t) \<and> t \<noteq> ''A'') (sockets sample_server))
       = [(''A'', RoomJoined ''ethereum'' []), (''D'', UserJoined ''alice'')]"
    by code_simp
  note a = join_room_switches_rooms [OF h1 h2 h3 h4, of sample_env sample_db]
  note b = join_room_switches_rooms [OF h1 h2 h3 h4, of "sample_env\<lparr>messages_fail := True\<rparr>" sample_db]
  have c1: "''bitcoin'' \<notin> set (rooms (fst (join_room sample_env sample_db sample_server ''A'' ''ethereum'')) ''A'')"
    by (rule a [THEN conjunct1])
  have c2: "''ethereum'' \<in> set (rooms (fst (join_room sample_env sample_db sample_server ''A'' ''ethereum'')) ''A'')"
    by (rule a [THEN conjunct2, THEN conjunct1])
  have c4: "rooms (fst (join_room sample_env sample_db sample_server ''A'' ''ethereum'')) ''B''
       = rooms sample_server ''B''"
    by (rule a [THEN conjunct2, THEN conjunct2, THEN conjunct2, THEN conjunct1, rule_format, OF ne])
  have c7: "snd (join_room sample_env sample_db sample_server ''A'' ''ethereum'')
       = [(''A'', RoomJoined ''ethereum'' []), (''D'', UserJoined ''alice'')]"
    using a [THEN conjunct2, THEN conjunct2, THEN conjunct2, THEN conjunct2, THEN conjunct2,
        THEN conjunct2, THEN conjunct1, rule_format, OF ok]
    by (simp only: ev)
  have c8: "snd (join_room (sample_env\<lparr>messages_fail := True\<rparr>) sample_db sample_server ''A'' ''ethereum'')
       = [(''A'', ErrorEvent ''Failed to load messages'')]"
    by (rule b [THEN conjunct2, THEN conjunct2, THEN conjunct2, THEN conjunct2, THEN conjunct2,
        THEN conjunct2, THEN conjunct2, rule_format, OF ko])
  show ?thesis
    by (intro conjI; fact)
qed

text \<open>
  Claim C5 as stated fails. Sockets \<open>A\<close> and \<open>B\<close> are in room \<open>bitcoin\<close>; \<open>A\<close> sends
  \<open>leave_room\<close> for \<open>bitcoin\<close> twice. \<open>B\<close> is sent \<open>user_left\<close> twice: the second call
  broadcasts again although \<open>A\<close> is no longer in the room.
\<close>

theorem second_leave_broadcasts_again:
  "rooms sample_server ''A'' = [''A'', ''bitcoin''] \<and> rooms sample_server ''B'' = [''B'', ''bitcoin'']
   \<and> snd (leave_room sample_server ''A'' ''bitcoin'')
      @ snd (leave_room (fst (leave_room sample_server ''A'' ''bitcoin'')) ''A'' ''bitcoin'')
       = [(''B'', UserLeft ''alice''), (''B'', UserLeft ''alice'')]"
  by code_simp

text \<open>
  Claim C5, amended. Leaving is idempotent on membership: after \<open>leave_room\<close> with a room
  identifier the socket is not in the room, the other sockets are where they were, and a
  second \<open>leave_room\<close> for the same room leaves the server state as the first did. Neither
  call sends an \<open>error\<close> event. Each call broadcasts \<open>user_left\<close> to the other sockets of the
  room, whether or not the caller was in it, so two calls in a row make the broadcast twice.
\<close>

theorem leave_room_twice:
  assumes "coinId \<noteq> []"
  shows "fst (leave_room (fst (leave_room st s coinId)) s coinId) = fst (leave_room st s coinId)
       \<and> coinId \<notin> set (rooms (fst (leave_room st s coinId)) s)
       \<and> (\<forall>t. t \<noteq> s \<longrightarrow> rooms (fst (leave_room st s coinId)) t = rooms st t)
       \<and> snd (leave_room st s coinId)
           = map (\<lambda>t. (t, UserLeft (username (user st s))))
                 (filter (\<lambda>t. coinId \<in> set (rooms st t) \<and> t \<noteq> s) (sockets st))
       \<and> snd (leave_room (fst (leave_room st s coinId)) s coinId) = snd (leave_room st s coinId)"
proof -
  have idem: "socket_leave (socket_leave st s coinId) s coinId = socket_leave st s coinId"
    by (simp add: socket_leave_def)
  have rec: "filter (\<lambda>t. coinId \<in> set (rooms (socket_leave st s coinId) t) \<and> t \<noteq> s) (sockets st)
           = filter (\<lambda>t. coinId \<in> set (rooms st t) \<and> t \<noteq> s) (sockets st)"
    by (rule filter_cong) auto
  have st1: "fst (leave_room st s coinId) = socket_leave st s coinId"
    using assms by (simp add: leave_room_def)
  have out1: "snd (leave_room st s coinId)
           = map (\<lambda>t. (t, UserLeft (username (user st s))))
                 (filter (\<lambda>t. coinId \<in> set (rooms st t) \<and> t \<noteq> s) (sockets st))"
    using assms by (simp add: leave_room_def socket_to_emit_def rec del: socket_leave_simps(3))
  have out2: "snd (leave_room (socket_leave st s coinId) s coinId) = snd (leave_room st s coinId)"
    using assms by (simp add: leave_room_def idem del: socket_leave_simps(3))
  have gone: "coinId \<notin> set (rooms (socket_leave st s coinId) s)"
    by simp
  have same: "\<forall>t. t \<noteq> s \<longrightarrow> rooms (socket_leave st s coinId) t = rooms st t"
    by simp
  have st2: "fst (leave_room (socket_leave st s coinId) s coinId) = socket_leave st s coinId"
    using assms by (simp add: leave_room_def idem)
  show ?thesis
    unfolding st1 using st2 gone same out1 out2 by (simp only: simp_thms)
qed

theorem leave_room_twice_witness:
  "''bitcoin'' \<noteq> []
   \<and> ''bitcoin'' \<notin> set (rooms (fst (leave_room sample_server ''A'' ''bitcoin'')) ''A'')
   \<and> rooms (fst (leave_room sample_server ''A'' ''bitcoin'')) ''B'' = rooms sample_server ''B''
   \<and> snd (leave_room sample_server ''A'' ''bitcoin'') = [(''B'', UserLeft ''alice'')]
   \<and> snd (leave_room (fst (leave_room sample_server ''A'' ''bitcoin'')) ''A'' ''bitcoin'')
       = [(''B'', UserLeft ''alice'')]
   \<and> fst (leave_room (fst (leave_room sample_server ''A'' ''bitcoin'')) ''A'' ''bitcoin'')
       = fst (leave_room sample_server ''A'' ''bitcoin'')"
proof -
  have h: "''bitcoin'' \<noteq> []" by simp
  have ne: "''B'' \<noteq> ''A''" by simp
  have ev: "map (\<lambda>t. (t, UserLeft (username (user sample_server ''A''))))
                 (filter (\<lambda>t. ''bitcoin'' \<in> set (rooms sample_server t) \<and> t \<noteq> ''A'') (sockets sample_server))
      = [(''B'', UserLeft ''alice'')]"
    by code_simp
  note a = leave_room_twice [OF h, of sample_server "''A''"]
  have c1: "fst (leave_room (fst (leave_room sample_server ''A'' ''bitcoin'')) ''A'' ''bitcoin'')
       = fst (leave_room sample_server ''A'' ''bitcoin'')"
    by (rule a [THEN conjunct1])
  have c2: "''bitcoin'' \<notin> set (rooms (fst (leave_room sample_server ''A'' ''bitcoin'')) ''A'')"
    by (rule a [THEN conjunct2, THEN conjunct1])
  have c3: "rooms (fst (leave_room sample_server ''A'' ''bitcoin'')) ''B'' = rooms sample_server ''B''"
    by (rule a [THEN conjunct2, THEN conjunct2, THEN conjunct1, rule_format, OF ne])
  have c4: "snd (leave_room sample_server ''A'' ''bitcoin'') = [(''B'', UserLeft ''alice'')]"
    using a [THEN conjunct2, THEN conjunct2, THEN conjunct2, THEN conjunct1] by (simp only: ev)
  have c5: "snd (leave_room (fst (leave_room sample_server ''A'' ''bitcoin'')) ''A'' ''bitcoin'')
       = [(''B'', UserLeft ''alice'')]"
    using a [THEN conjunct2, THEN conjunct2, THEN conjunct2, THEN conjunct2] by (simp only: c4)
  show ?thesis
    by (intro conjI; fact)
qed

section \<open>Room membership over sequences of events\<close>

lemma dispatch_related:
  assumes "\<forall>t. (t \<in> set (sockets st) \<longleftrightarrow> \<sigma> t \<noteq> Disconnected)
              \<and> (\<forall>r. r \<noteq> t \<longrightarrow> (r \<in> set (rooms st t) \<longleftrightarrow> \<sigma> t = InRoom r))"
  shows "\<forall>t. (t \<in> set (sockets (fst (dispatch st (s, ev, env, db))))
                  \<longleftrightarrow> (\<sigma>(s := session_step (\<sigma> s) ev)) t \<noteq> Disconnected)
              \<and> (\<forall>r. r \<noteq> t \<longrightarrow> (r \<in> set (rooms (fst (dispatch st (s, ev, env, db))) t)
                                    \<longleftrightarrow> (\<sigma>(s := session_step (\<sigma> s) ev)) t = InRoom r))"
proof (cases "s \<in> set (sockets st)")
  case False
  then have "\<sigma> s = Disconnected"
    using assms by blast
  then have "\<sigma>(s := session_step (\<sigma> s) ev) = \<sigma>"
    by (simp add: fun_upd_idem)
  with False assms show ?thesis
    by (simp add: dispatch_def)
next
  case True
  then have alive: "\<sigma> s \<noteq> Disconnected"
    using assms by blast
  have mem: "r \<noteq> s \<Longrightarrow> (r \<in> set (rooms st s) \<longleftrightarrow> \<sigma> s = InRoom r)" for r
    using assms by blast
  show ?thesis
  proof (cases ev)
    case (JoinRoom b)
    have step: "session_step (\<sigma> s) (JoinRoom b) = (if b = [] then \<sigma> s else InRoom b)"
      using alive by (cases "\<sigma> s") simp_all
    show ?thesis
      using True assms alive
      by (auto simp: dispatch_def JoinRoom step join_room_state join_room_switch_simps)
  next
    case (LeaveRoom c)
    have step: "session_step (\<sigma> s) (LeaveRoom c) = (if c \<noteq> [] \<and> \<sigma> s = InRoom c then NoRoom else \<sigma> s)"
      using alive by (cases "\<sigma> s") simp_all
    show ?thesis
      using True assms alive
      by (auto simp: dispatch_def LeaveRoom step leave_room_state)
  next
    case Disconnect
    have step: "session_step (\<sigma> s) Disconnect = Disconnected"
      by (cases "\<sigma> s") simp_all
    show ?thesis
      using True assms
      by (auto simp: dispatch_def Disconnect step disconnect_def)
  qed
qed

lemma run_related:
  assumes "\<forall>t. (t \<in> set (sockets st) \<longleftrightarrow> \<sigma> t \<noteq> Disconnected)
              \<and> (\<forall>r. r \<noteq> t \<longrightarrow> (r \<in> set (rooms st t) \<longleftrightarrow> \<sigma> t = InRoom r))"
  shows "\<forall>t. (t \<in> set (sockets (run_events st rqs)) \<longleftrightarrow> session_run \<sigma> rqs t \<noteq> Disconnected)
              \<and> (\<forall>r. r \<noteq> t \<longrightarrow> (r \<in> set (rooms (run_events st rqs) t) \<longleftrightarrow> session_run \<sigma> rqs t = InRoom r))"
  using assms
proof (induction rqs arbitrary: st \<sigma>)
  case Nil
  then show ?case by (simp add: run_events_def session_run_def)
next
  case (Cons rq rqs)
  obtain s ev env db where rq: "rq = (s, ev, env, db)"
    by (cases rq)
  have "\<forall>t. (t \<in> set (sockets (run_events (fst (dispatch st rq)) rqs))
                \<longleftrightarrow> session_run (\<sigma>(s := session_step (\<sigma> s) ev)) rqs t \<noteq> Disconnected)
           \<and> (\<forall>r. r \<noteq> t \<longrightarrow> (r \<in> set (rooms (run_events (fst (dispatch st rq)) rqs) t)
                \<longleftrightarrow> session_run (\<sigma>(s := session_step (\<sigma> s) ev)) rqs t = InRoom r))"
    unfolding rq by (rule Cons.IH, rule dispatch_related, rule Cons.prems)
  then show ?case
    by (simp add: run_events_def session_run_def rq)
qed

text \<open>
  Claim C6. Start with any sockets connected and in no chat room, and run any sequence of
  \<open>join_room\<close>, \<open>leave_room\<close> and \<open>disconnect\<close> events. A socket is then in a room \<open>r\<close>, other
  than the private room named by its own id, exactly if the session state machine of the
  specification has it in \<open>r\<close>: its last join was to \<open>r\<close> and it has since neither left \<open>r\<close> nor
  disconnected. So a socket is in at most one room besides its private one.
\<close>

theorem room_membership_invariant:
  "(r \<noteq> s \<longrightarrow> (r \<in> set (rooms (run_events (connected ss u) rqs) s)
                   \<longleftrightarrow> session_states ss rqs s = InRoom r))
   \<and> (r1 \<in> set (rooms (run_events (connected ss u) rqs) s) \<and> r1 \<noteq> s
      \<and> r2 \<in> set (rooms (run_events (connected ss u) rqs) s) \<and> r2 \<noteq> s \<longrightarrow> r1 = r2)"
proof -
  have "\<forall>t. (t \<in> set (sockets (connected ss u)) \<longleftrightarrow> (if t \<in> set ss then NoRoom else Disconnected) \<noteq> Disconnected)
              \<and> (\<forall>r. r \<noteq> t \<longrightarrow> (r \<in> set (rooms (connected ss u) t)
                     \<longleftrightarrow> (if t \<in> set ss then NoRoom else Disconnected) = InRoom r))"
    by (simp add: connected_def)
  from run_related [OF this, of rqs]
  have rel: "r \<noteq> s \<Longrightarrow> (r \<in> set (rooms (run_events (connected ss u) rqs) s)
                   \<longleftrightarrow> session_states ss rqs s = InRoom r)" for r
    by (simp add: session_states_def)
  show ?thesis
    using rel [of r] rel [of r1] rel [of r2] by auto
qed

theorem room_membership_invariant_witness:
  "''ethereum'' \<noteq> ''B''
   \<and> ''ethereum'' \<in> set (rooms (run_events (connected [''A'', ''B''] sample_users)
        [(''A'', JoinRoom ''bitcoin'', sample_env, sample_db), (''A'', LeaveRoom ''ethereum'', sample_env, sample_db),
         (''B'', JoinRoom ''bitcoin'', sample_env, sample_db), (''B'', JoinRoom ''ethereum'', sample_env, sample_db),
         (''A'', Disconnect, sample_env, sample_db)]) ''B'')
   \<and> session_states [''A'', ''B'']
        [(''A'', JoinRoom ''bitcoin'', sample_env, sample_db), (''A'', LeaveRoom ''ethereum'', sample_env, sample_db),
         (''B'', JoinRoom ''bitcoin'', sample_env, sample_db), (''B'', JoinRoom ''ethereum'', sample_env, sample_db),
         (''A'', Disconnect, sample_env, sample_db)] ''B'' = InRoom ''ethereum''
   \<and> ''bitcoin'' \<notin> set (rooms (run_events (connected [''A'', ''B''] sample_users)
        [(''A'', JoinRoom ''bitcoin'', sample_env, sample_db), (''A'', LeaveRoom ''ethereum'', sample_env, sample_db),
         (''B'', JoinRoom ''bitcoin'', sample_env, sample_db), (''B'', JoinRoom ''ethereum'', sample_env, sample_db),
         (''A'', Disconnect, sample_env, sample_db)]) ''B'')"
proof -
  let ?rqs = "[(''A'', JoinRoom ''bitcoin'', sample_env, sample_db), (''A'', LeaveRoom ''ethereum'', sample_env, sample_db),
         (''B'', JoinRoom ''bitcoin'', sample_env, sample_db), (''B'', JoinRoom ''ethereum'', sample_env, sample_db),
         (''A'', Disconnect, sample_env, sample_db)]"
  have h: "''ethereum'' \<noteq> ''B''" "''bitcoin'' \<noteq> ''B''" by simp_all
  have sp: "session_states [''A'', ''B''] ?rqs ''B'' = InRoom ''ethereum''"
    by code_simp
  have "''ethereum'' \<in> set (rooms (run_events (connected [''A'', ''B''] sample_users) ?rqs) ''B'')"
    using room_membership_invariant [of "''ethereum''" "''B''" "[''A'', ''B'']" sample_users ?rqs] h(1) sp
    by blast
  moreover have "''bitcoin'' \<notin> set (rooms (run_events (connected [''A'', ''B''] sample_users) ?rqs) ''B'')"
    using room_membership_invariant [of "''bitcoin''" "''B''" "[''A'', ''B'']" sample_users ?rqs] h(2) sp
    by simp
  ultimately show ?thesis
    using sp by simp
qed

section \<open>Validation of message bodies\<close>

text \<open>
  What the two entry points reject: the realtime handler a body that is empty after trimming
  or longer than 500, the REST handler a body that is empty or longer than 1000. Neither
  creates a row then, and the report goes to the caller alone.
\<close>

lemma send_message_rejects:
  assumes "trim message = [] \<or> length message > 500"
  shows "\<exists>e. send_message env db st s coinId message = (db, [(s, ErrorEvent e)])"
  using assms by (auto simp: send_message_def socket_emit_def)

lemma post_message_rejects:
  assumes "b_content body = Some t" "t = [] \<or> length t > 1000" "caller \<noteq> []"
  shows "\<exists>e. post_message env db (Some caller) body = (db, 400, ValidationBody e)"
  using assms by (auto simp: post_message_def messageSchema_validate_def split: option.splits)

text \<open>
  Claim C9 fails on the REST entry point. An authenticated \<^verbatim>\<open>POST /messages\<close> whose content
  is one space passes the schema (its length is 1), is trimmed to the empty string and is
  inserted: the answer is 201 and the table holds a row with empty text. The realtime entry
  point rejects the same body.
\<close>

theorem post_message_accepts_blank_body:
  "trim '' '' = []
   \<and> fst (snd (post_message sample_env sample_db (Some ''auth0|alice'')
          \<lparr>b_coinId = Some ''bitcoin'', b_content = Some '' ''\<rparr>)) = 201
   \<and> chat_messages (fst (post_message sample_env sample_db (Some ''auth0|alice'')
          \<lparr>b_coinId = Some ''bitcoin'', b_content = Some '' ''\<rparr>))
       = [\<lparr>msg_id = 7, coin_id = Some ''bitcoin'', user_id = Some 1, content = [],
           created_at = Some 1000, is_deleted = Some False\<rparr>]
   \<and> send_message sample_env sample_db sample_server ''A'' ''bitcoin'' '' ''
       = (sample_db, [(''A'', ErrorEvent ''Coin ID and message are required'')])"
  by code_simp

end
